theory Spec2Isabelle
  imports Complex_Main "HOL-Library.Sublist"
begin

section \<open>Google Review Booster: the document store of \<^verbatim>\<open>server.js\<close>\<close>

text \<open>
  The server keeps one JSON document per client in the directory \<^verbatim>\<open>data\<close> beside
  \<^verbatim>\<open>server.js\<close>. This theory embeds the helper functions and the route handlers of
  \<^verbatim>\<open>server.js\<close> that read and write these documents, and proves properties of them.
\<close>

subsection \<open>JSON values as JavaScript sees them\<close>

text \<open>
  A value produced by \<^verbatim>\<open>JSON.parse\<close>. An object is the list of its properties in
  insertion order; a property read takes the first entry of a key (\<open>map_of\<close>), and the
  statements below only read properties, so the place JavaScript gives to integer-like
  keys does not matter. JavaScript's \<^verbatim>\<open>undefined\<close> is the \<open>None\<close> of an \<open>option\<close>.
  Numbers are carried by their value; the code only ever asks whether one is zero.
  Strings are lists of characters, one \<open>char\<close> for each unit JavaScript counts.
\<close>

datatype json =
    JNull
  | JBool bool
  | JNum rat
  | JStr string
  | JArr "json list"
  | JObj "(string \<times> json) list"

text \<open>Truthiness, as tested by \<^verbatim>\<open>!x\<close>, \<^verbatim>\<open>x && y\<close> and \<^verbatim>\<open>x || y\<close>.\<close>

fun truthy :: "json \<Rightarrow> bool" where
  "truthy JNull = False"
| "truthy (JBool b) = b"
| "truthy (JNum n) = (n \<noteq> 0)"
| "truthy (JStr s) = (s \<noteq> [])"
| "truthy (JArr xs) = True"
| "truthy (JObj kvs) = True"

fun truthy_opt :: "json option \<Rightarrow> bool" where
  "truthy_opt None = False"
| "truthy_opt (Some v) = truthy v"

text \<open>
  \<^verbatim>\<open>data.key\<close> on a value that is not \<^verbatim>\<open>null\<close>, for the keys the server reads
  (\<^verbatim>\<open>reviews\<close>, \<^verbatim>\<open>clientId\<close>, \<^verbatim>\<open>clientName\<close>): only an object has them.
  On \<^verbatim>\<open>null\<close> the read throws a TypeError; the callers below test for that first.
\<close>

fun jprop :: "json \<Rightarrow> string \<Rightarrow> json option" where
  "jprop (JObj kvs) k = map_of kvs k"
| "jprop _ k = None"

text \<open>
  \<^verbatim>\<open>{...a, ...b}\<close>: the properties of \<open>a\<close> in their order, with the values \<open>b\<close> gives
  them, followed by the properties only \<open>b\<close> has.
\<close>

definition obj_assign :: "(string \<times> json) list \<Rightarrow> (string \<times> json) list \<Rightarrow> (string \<times> json) list" where
  "obj_assign a b =
     map (\<lambda>(k, v). (k, case map_of b k of Some v' \<Rightarrow> v' | None \<Rightarrow> v)) a
     @ filter (\<lambda>(k, v). map_of a k = None) b"

text \<open>
  \<^verbatim>\<open>data.key = v\<close> in sloppy mode (the file has no \<^verbatim>\<open>"use strict"\<close>): an object gets
  the property; on a primitive the assignment is ignored, and a property set on an array is
  not part of its JSON text.
\<close>

fun jset :: "json \<Rightarrow> string \<Rightarrow> json \<Rightarrow> json" where
  "jset (JObj kvs) k v = JObj (obj_assign kvs [(k, v)])"
| "jset d k v = d"

text \<open>Decimal digits of an array index, for the property names of a spread array or string.\<close>

definition digit_char :: "nat \<Rightarrow> char" where
  "digit_char d = char_of (48 + d)"

fun show_nat :: "nat \<Rightarrow> string" where
  "show_nat n = (if n < 10 then [digit_char n] else show_nat (n div 10) @ [digit_char (n mod 10)])"

declare show_nat.simps [simp del]

text \<open>
  The own enumerable properties \<^verbatim>\<open>{...data}\<close> copies: those of an object, the indexed
  elements of an array, the indexed characters of a string, none of a number or boolean.
\<close>

fun spread_props :: "json \<Rightarrow> (string \<times> json) list" where
  "spread_props (JObj kvs) = kvs"
| "spread_props (JArr xs) = zip (map show_nat [0..<length xs]) xs"
| "spread_props (JStr s) = zip (map show_nat [0..<length s]) (map (\<lambda>c. JStr [c]) s)"
| "spread_props _ = []"

text \<open>
  \<^verbatim>\<open>[...v]\<close>: the elements of an array, the characters of a string; any other value is
  not iterable and the spread throws a TypeError (\<open>None\<close>).
\<close>

fun spread_iter :: "json \<Rightarrow> json list option" where
  "spread_iter (JArr xs) = Some xs"
| "spread_iter (JStr s) = Some (map (\<lambda>c. JStr [c]) s)"
| "spread_iter _ = None"

text \<open>
  \<^verbatim>\<open>===\<close> between two parsed values: primitives compare by value, while two arrays or
  objects that come from different parses are different references.
\<close>

fun strict_eq :: "json \<Rightarrow> json \<Rightarrow> bool" where
  "strict_eq JNull JNull = True"
| "strict_eq (JBool a) (JBool b) = (a = b)"
| "strict_eq (JNum a) (JNum b) = (a = b)"
| "strict_eq (JStr a) (JStr b) = (a = b)"
| "strict_eq _ _ = False"

text \<open>\<^verbatim>\<open>xs.indexOf(v)\<close> on an array: the first index that is \<^verbatim>\<open>===\<close> to \<open>v\<close>, \<open>None\<close> for -1.\<close>

fun index_of :: "json \<Rightarrow> json list \<Rightarrow> nat option" where
  "index_of v [] = None"
| "index_of v (x # xs) =
     (if strict_eq x v then Some 0
      else (case index_of v xs of None \<Rightarrow> None | Some i \<Rightarrow> Some (Suc i)))"

text \<open>\<^verbatim>\<open>xs.splice(i, 1)\<close>: the array without its element at index \<open>i\<close>.\<close>

definition splice1 :: "nat \<Rightarrow> 'a list \<Rightarrow> 'a list" where
  "splice1 i xs = take i xs @ drop (Suc i) xs"

subsection \<open>Node's \<^verbatim>\<open>path.join\<close> (POSIX)\<close>

text \<open>
  \<^verbatim>\<open>path.join\<close> concatenates its non-empty arguments with \<^verbatim>\<open>/\<close> and normalises the
  result: empty and \<^verbatim>\<open>.\<close> segments vanish, \<^verbatim>\<open>..\<close> removes the segment before it, and
  above the root of an absolute path \<^verbatim>\<open>..\<close> is dropped.
\<close>

fun split_on :: "char \<Rightarrow> string \<Rightarrow> string list" where
  "split_on c [] = [[]]"
| "split_on c (x # xs) =
     (if x = c then [] # split_on c xs
      else (case split_on c xs of [] \<Rightarrow> [[x]] | s # ss \<Rightarrow> (x # s) # ss))"

fun join_segs :: "string list \<Rightarrow> string" where
  "join_segs [] = []"
| "join_segs [s] = s"
| "join_segs (s # t # ss) = s @ ''/'' @ join_segs (t # ss)"

text \<open>
  \<^verbatim>\<open>normalizeString(path, allowAboveRoot)\<close>, one segment at a time; \<open>res\<close> holds the
  segments kept so far.
\<close>

fun norm_segs :: "bool \<Rightarrow> string list \<Rightarrow> string list \<Rightarrow> string list" where
  "norm_segs up res [] = res"
| "norm_segs up res (s # ss) =
     (if s = [] \<or> s = ''.'' then norm_segs up res ss
      else if s = ''..'' then
        (if res \<noteq> [] \<and> last res \<noteq> ''..'' then norm_segs up (butlast res) ss
         else if up then norm_segs up (res @ [''..'']) ss
         else norm_segs up res ss)
      else norm_segs up (res @ [s]) ss)"

definition path_normalize :: "string \<Rightarrow> string" where
  "path_normalize p =
     (if p = [] then ''.''
      else
        let isAbsolute = (hd p = CHR ''/'');
            trailingSeparator = (last p = CHR ''/'');
            r = join_segs (norm_segs (\<not> isAbsolute) [] (split_on CHR ''/'' p))
        in if r = [] then (if isAbsolute then ''/'' else if trailingSeparator then ''./'' else ''.'')
           else (if isAbsolute then ''/'' else []) @ r @ (if trailingSeparator then ''/'' else []))"

definition path_join :: "string \<Rightarrow> string \<Rightarrow> string" where
  "path_join a b =
     (if a = [] \<and> b = [] then ''.''
      else if a = [] then path_normalize b
      else if b = [] then path_normalize a
      else path_normalize (a @ ''/'' @ b))"

text \<open>
  A segment that normalisation keeps as it is: a non-empty name other than \<^verbatim>\<open>.\<close> and
  \<^verbatim>\<open>..\<close>, without a separator.
\<close>

definition plain :: "string \<Rightarrow> bool" where
  "plain s = (s \<noteq> [] \<and> s \<noteq> ''.'' \<and> s \<noteq> ''..'' \<and> CHR ''/'' \<notin> set s)"

subsection \<open>Paths and constants\<close>

text \<open>
  \<open>dn\<close> is \<^verbatim>\<open>__dirname\<close>, the absolute directory of \<^verbatim>\<open>server.js\<close>.
\<close>

definition DATA_DIR :: "string \<Rightarrow> string" where
  "DATA_DIR dn = path_join dn ''data''"

definition SAMPLE_REVIEWS_FILE :: "string \<Rightarrow> string" where
  "SAMPLE_REVIEWS_FILE dn = path_join (DATA_DIR dn) ''sample-reviews-200.json''"

definition getClientDataPath :: "string \<Rightarrow> string \<Rightarrow> string" where
  "getClientDataPath dn clientId = path_join (DATA_DIR dn) (clientId @ ''.json'')"

subsection \<open>The file system\<close>

text \<open>
  What \<^verbatim>\<open>fs.readJson\<close> finds at a path: a parsed JSON value, or something it throws on
  (text that is not JSON, a directory, a read error).
\<close>

datatype entry = Parsed json | Unreadable

text \<open>
  The state of the disk: the entries by absolute path, in the order \<^verbatim>\<open>fs.readdir\<close>
  reports them, the paths at which \<^verbatim>\<open>fs.writeJson\<close> throws, and whether
  \<^verbatim>\<open>fs.readdir\<close> of the data directory throws.
\<close>

record store =
  files :: "(string \<times> entry) list"
  write_fails :: "string set"
  readdir_fails :: bool

definition pathExists :: "store \<Rightarrow> string \<Rightarrow> bool" where
  "pathExists s p = (map_of (files s) p \<noteq> None)"

text \<open>\<^verbatim>\<open>fs.readJson\<close>: \<open>None\<close> when it throws.\<close>

definition readJson :: "store \<Rightarrow> string \<Rightarrow> json option" where
  "readJson s p = (case map_of (files s) p of Some (Parsed d) \<Rightarrow> Some d | _ \<Rightarrow> None)"

text \<open>Replacing the entry of a path where it stands, or adding it at the end.\<close>

fun put_file :: "string \<Rightarrow> entry \<Rightarrow> (string \<times> entry) list \<Rightarrow> (string \<times> entry) list" where
  "put_file p e [] = [(p, e)]"
| "put_file p e ((q, x) # fs) = (if q = p then (p, e) # fs else (q, x) # put_file p e fs)"

text \<open>The name of a path directly inside directory \<open>dir\<close>.\<close>

definition child_name :: "string \<Rightarrow> string \<Rightarrow> string option" where
  "child_name dir p =
     (if prefix (dir @ ''/'') p then
        (let n = drop (length dir + 1) p
         in if n \<noteq> [] \<and> CHR ''/'' \<notin> set n then Some n else None)
      else None)"

definition readdir :: "store \<Rightarrow> string \<Rightarrow> string list" where
  "readdir s dir = List.map_filter (child_name dir) (map fst (files s))"

subsection \<open>Helper functions of the server\<close>

definition hard_fallback :: json where
  "hard_fallback = JArr [JStr ''Excellent service!'', JStr ''Very professional.'']"

definition security_warning :: json where
  "security_warning = JArr [JStr ''Security warning: Invalid file path.'']"

text \<open>
  The fallback inside the \<^verbatim>\<open>try\<close> block of \<^verbatim>\<open>getReviewsFromFile\<close>: the default
  sample's \<^verbatim>\<open>reviews\<close> when truthy, else a one-element list; when reading the sample
  throws, or it parses to \<^verbatim>\<open>null\<close>, the \<^verbatim>\<open>catch\<close> block answers.
\<close>

definition default_reviews :: "string \<Rightarrow> store \<Rightarrow> json" where
  "default_reviews dn s =
     (case readJson s (SAMPLE_REVIEWS_FILE dn) of
        None \<Rightarrow> hard_fallback
      | Some defaultData \<Rightarrow>
          if defaultData = JNull then hard_fallback
          else (case jprop defaultData ''reviews'' of
                  Some v \<Rightarrow> if truthy v then v else JArr [JStr ''Excellent service!'']
                | None \<Rightarrow> JArr [JStr ''Excellent service!'']))"

text \<open>
  \<^verbatim>\<open>getReviewsFromFile(fileName)\<close>; \<open>None\<close> is a missing argument.
\<close>

definition getReviewsFromFile :: "string \<Rightarrow> store \<Rightarrow> string option \<Rightarrow> json" where
  "getReviewsFromFile dn s fileName =
     (let fileName' = (case fileName of None \<Rightarrow> ''sample-reviews-200.json''
                       | Some f \<Rightarrow> if f = [] then ''sample-reviews-200.json'' else f);
          filePath = path_join (DATA_DIR dn) fileName'
      in if \<not> prefix (DATA_DIR dn) filePath then security_warning
         else if pathExists s filePath then
           (case readJson s filePath of
              None \<Rightarrow> hard_fallback
            | Some data \<Rightarrow>
                if data = JNull then hard_fallback
                else (case jprop data ''reviews'' of
                        Some (JArr xs) \<Rightarrow> JArr xs
                      | _ \<Rightarrow> default_reviews dn s))
         else default_reviews dn s)"

text \<open>\<^verbatim>\<open>getClientData\<close>: the parsed document, or \<^verbatim>\<open>null\<close>.\<close>

definition getClientData :: "string \<Rightarrow> store \<Rightarrow> string \<Rightarrow> json" where
  "getClientData dn s clientId =
     (let filePath = getClientDataPath dn clientId
      in if pathExists s filePath then
           (case readJson s filePath of Some d \<Rightarrow> d | None \<Rightarrow> JNull)
         else JNull)"

text \<open>
  \<^verbatim>\<open>writeClientData\<close>: the success flag and the disk afterwards. A write that throws
  is taken to leave the disk as it was; a write that succeeds stores the value that
  parsing the written text gives back.
\<close>

definition writeClientData :: "string \<Rightarrow> store \<Rightarrow> string \<Rightarrow> json \<Rightarrow> bool \<times> store" where
  "writeClientData dn s clientId d =
     (let filePath = getClientDataPath dn clientId
      in if filePath \<in> write_fails s then (False, s)
         else (True, s\<lparr>files := put_file filePath (Parsed d) (files s)\<rparr>))"

subsection \<open>Validation schemas\<close>

text \<open>
  What \<^verbatim>\<open>Joi\<close> accepts for \<^verbatim>\<open>clientUpdateSchema\<close>. \<open>is_uri\<close> stands for Joi's URI
  test. A Joi string is a non-empty JSON string unless the empty one is allowed, and an
  object schema rejects every key it does not name.
\<close>

definition is_hex :: "char \<Rightarrow> bool" where
  "is_hex c = (c \<in> set ''0123456789abcdefABCDEF'')"

definition hex_colour :: "json \<Rightarrow> bool" where
  "hex_colour v = (case v of
       JStr s \<Rightarrow> length s = 7 \<and> hd s = CHR ''#'' \<and> list_all is_hex (tl s)
     | _ \<Rightarrow> False)"

definition clientUpdateSchema :: "(string \<Rightarrow> bool) \<Rightarrow> (string \<times> json) list \<Rightarrow> bool" where
  "clientUpdateSchema is_uri body =
     (list_all (\<lambda>(k, v). k \<in> set [''clientName'', ''googleReviewLink'', ''logoUrl'',
                                    ''primaryColor'', ''secondaryColor'']) body
      \<and> (case map_of body ''clientName'' of
           Some (JStr n) \<Rightarrow> 3 \<le> length n \<and> length n \<le> 100 | _ \<Rightarrow> False)
      \<and> (case map_of body ''googleReviewLink'' of
           Some (JStr u) \<Rightarrow> u \<noteq> [] \<and> is_uri u | _ \<Rightarrow> False)
      \<and> (case map_of body ''logoUrl'' of
           None \<Rightarrow> True | Some (JStr u) \<Rightarrow> u = [] \<or> is_uri u | _ \<Rightarrow> False)
      \<and> (case map_of body ''primaryColor'' of Some v \<Rightarrow> hex_colour v | None \<Rightarrow> False)
      \<and> (case map_of body ''secondaryColor'' of Some v \<Rightarrow> hex_colour v | None \<Rightarrow> False))"

subsection \<open>Route handlers\<close>

text \<open>
  What a handler does with the response: a status with a JSON body, or nothing because an
  exception left the handler.
\<close>

datatype response = Reply nat json | Thrown

definition message :: "string \<Rightarrow> json" where
  "message m = JObj [(''message'', JStr m)]"

text \<open>
  \<^verbatim>\<open>res.status(code).json(body)\<close> with a status code that is not a three-digit number:
  Node refuses to write the head of the response with a RangeError, the exception leaves
  the handler and no reply is sent. With a status from 100 to 999 the reply is sent; the
  handlers below write \<open>Reply\<close> for those directly.
\<close>

definition status_json :: "nat \<Rightarrow> json \<Rightarrow> response" where
  "status_json code body = (if 100 \<le> code \<and> code \<le> 999 then Reply code body else Thrown)"

text \<open>\<^verbatim>\<open>s.replace(pat, "")\<close> with a string pattern: the first occurrence is removed.\<close>

fun remove_first :: "string \<Rightarrow> string \<Rightarrow> string" where
  "remove_first pat [] = []"
| "remove_first pat (x # xs) =
     (if prefix pat (x # xs) then drop (length pat) (x # xs) else x # remove_first pat xs)"

text \<open>
  \<^verbatim>\<open>GET /api/clients\<close>. \<open>summary_of\<close> is the test
  \<^verbatim>\<open>data && data.clientId && data.clientName\<close> with the object it guards; \<open>None\<close> is
  the \<^verbatim>\<open>null\<close> that is filtered out at the end.
\<close>

definition summary_of :: "json \<Rightarrow> json option" where
  "summary_of data =
     (if truthy data then
        (case (jprop data ''clientId'', jprop data ''clientName'') of
           (Some i, Some n) \<Rightarrow>
             if truthy i \<and> truthy n then Some (JObj [(''clientId'', i), (''clientName'', n)])
             else None
         | _ \<Rightarrow> None)
      else None)"

definition client_summary :: "string \<Rightarrow> store \<Rightarrow> string \<Rightarrow> json option" where
  "client_summary dn s file =
     (let clientId = remove_first ''.json'' file;
          data = getClientData dn s clientId
      in summary_of data)"

definition listClients :: "string \<Rightarrow> store \<Rightarrow> response" where
  "listClients dn s =
     (if readdir_fails s then Reply 500 (message ''Error reading client directory.'')
      else
        let clientFiles = filter (suffix ''.json'') (readdir s (DATA_DIR dn))
        in Reply 200 (JArr (List.map_filter (client_summary dn s) clientFiles)))"

text \<open>
  \<^verbatim>\<open>POST /api/client\<close>, after validation: \<open>clientId\<close>, \<open>sourceReviewFile\<close> and
  \<open>clientDetails\<close> are the three parts the handler takes the body apart into.
\<close>

definition createClient ::
  "string \<Rightarrow> store \<Rightarrow> string \<Rightarrow> string option \<Rightarrow> (string \<times> json) list \<Rightarrow> response \<times> store" where
  "createClient dn s clientId sourceReviewFile clientDetails =
     (let filePath = getClientDataPath dn clientId
      in if pathExists s filePath then (Reply 409 (message ''Client ID already exists.''), s)
         else
           let initialReviews = getReviewsFromFile dn s sourceReviewFile;
               newClientData = JObj (obj_assign clientDetails
                                  [(''clientId'', JStr clientId), (''reviews'', initialReviews)]);
               (success, s') = writeClientData dn s clientId newClientData
           in if success then (Reply 201 newClientData, s')
              else (Reply 500 (message ''Failed to create client file.''), s'))"

text \<open>\<^verbatim>\<open>PUT /api/client/:clientId\<close>, after validation of the body.\<close>

definition updateClient ::
  "string \<Rightarrow> store \<Rightarrow> string \<Rightarrow> (string \<times> json) list \<Rightarrow> response \<times> store" where
  "updateClient dn s clientId body =
     (let data = getClientData dn s clientId
      in if \<not> truthy data then (status_json 4404 (message ''Client not found.''), s)
         else
           let updatedData = JObj (obj_assign (obj_assign (spread_props data) body)
                                     [(''clientId'', JStr clientId)]);
               (success, s') = writeClientData dn s clientId updatedData
           in if success then (Reply 200 updatedData, s')
              else (Reply 500 (message ''Failed to update client data.''), s'))"

text \<open>\<^verbatim>\<open>data.reviews || []\<close>\<close>

definition reviews_or_empty :: "json \<Rightarrow> json" where
  "reviews_or_empty data =
     (case jprop data ''reviews'' of Some v \<Rightarrow> if truthy v then v else JArr [] | None \<Rightarrow> JArr [])"

text \<open>\<^verbatim>\<open>GET /api/client/:clientId/reviews\<close>\<close>

definition listReviews :: "string \<Rightarrow> store \<Rightarrow> string \<Rightarrow> response" where
  "listReviews dn s clientId =
     (let data = getClientData dn s clientId
      in if \<not> truthy data then Reply 404 (message ''Client not found.'')
         else Reply 200 (JObj [(''reviews'', reviews_or_empty data)]))"

text \<open>
  \<^verbatim>\<open>GET /api/client/:clientId/random-review\<close>. JavaScript's numbers are doubles; a
  double is carried here by the rational number it stands for. \<open>r\<close> is the value of
  \<^verbatim>\<open>Math.random()\<close> and \<open>dmul\<close> is JavaScript's \<^verbatim>\<open>*\<close> on doubles, whose result is
  a rounded product; the length of an array and \<^verbatim>\<open>Math.floor\<close> of a double are exact.
  An index outside the list reads \<^verbatim>\<open>undefined\<close>, which \<^verbatim>\<open>res.json\<close> leaves out of
  the body. The result is \<open>None\<close> where \<^verbatim>\<open>reviews\<close> is a JSON object: what JavaScript
  does then depends on the numeric coercion of its \<^verbatim>\<open>length\<close> property, which is not
  modelled.
\<close>

definition pick :: "(rat \<Rightarrow> rat \<Rightarrow> rat) \<Rightarrow> rat \<Rightarrow> 'a list \<Rightarrow> 'a option" where
  "pick dmul r xs =
     (let randomIndex = \<lfloor>dmul r (of_nat (length xs))\<rfloor>
      in if 0 \<le> randomIndex \<and> randomIndex < int (length xs) then Some (xs ! nat randomIndex)
         else None)"

definition review_body :: "json option \<Rightarrow> json" where
  "review_body v = (case v of Some x \<Rightarrow> JObj [(''review'', x)] | None \<Rightarrow> JObj [])"

definition randomReview ::
  "string \<Rightarrow> store \<Rightarrow> string \<Rightarrow> (rat \<Rightarrow> rat \<Rightarrow> rat) \<Rightarrow> rat \<Rightarrow> response option" where
  "randomReview dn s clientId dmul r =
     (let data = getClientData dn s clientId;
          not_found = Reply 404 (message ''Client not found or has no reviews.'')
      in if \<not> truthy data then Some not_found
         else (case jprop data ''reviews'' of
                 None \<Rightarrow> Some not_found
               | Some v \<Rightarrow>
                   if \<not> truthy v then Some not_found
                   else (case v of
                           JArr xs \<Rightarrow>
                             if length xs = 0 then Some not_found
                             else Some (Reply 200 (review_body (pick dmul r xs)))
                         | JStr t \<Rightarrow>
                             Some (Reply 200 (review_body (pick dmul r (map (\<lambda>c. JStr [c]) t))))
                         | JObj kvs \<Rightarrow> None
                         | _ \<Rightarrow> Some (Reply 200 (JObj [])))))"

text \<open>\<^verbatim>\<open>POST /api/client/:clientId/reviews\<close>, after validation; \<open>review\<close> is the text.\<close>

definition addReview :: "string \<Rightarrow> store \<Rightarrow> string \<Rightarrow> string \<Rightarrow> response \<times> store" where
  "addReview dn s clientId review =
     (let data = getClientData dn s clientId
      in if \<not> truthy data then (Reply 404 (message ''Client not found.''), s)
         else (case spread_iter (reviews_or_empty data) of
                 None \<Rightarrow> (Thrown, s)
               | Some old \<Rightarrow>
                   let data' = jset data ''reviews'' (JArr (JStr review # old));
                       (success, s') = writeClientData dn s clientId data'
                   in if success then (Reply 201 (JObj [(''review'', JStr review)]), s')
                      else (Reply 500 (message ''Failed to add review.''), s')))"

text \<open>
  \<^verbatim>\<open>DELETE /api/client/:clientId/reviews\<close> with a text in the body's \<^verbatim>\<open>review\<close>.
  Where \<^verbatim>\<open>reviews\<close> is a string, \<^verbatim>\<open>indexOf\<close> searches it for the text and
  \<^verbatim>\<open>splice\<close> then throws; where it is any other value that is not an array,
  \<^verbatim>\<open>indexOf\<close> itself throws.
\<close>

definition deleteReview :: "string \<Rightarrow> store \<Rightarrow> string \<Rightarrow> string \<Rightarrow> response \<times> store" where
  "deleteReview dn s clientId review =
     (if review = [] then (Reply 400 (message ''Review text is required.''), s)
      else
        let data = getClientData dn s clientId
        in if \<not> truthy data then (Reply 404 (message ''Client not found.''), s)
           else (case reviews_or_empty data of
                   JArr xs \<Rightarrow>
                     (case index_of (JStr review) xs of
                        None \<Rightarrow> (Reply 404 (message ''Review not found.''), s)
                      | Some reviewIndex \<Rightarrow>
                          let data' = jset data ''reviews'' (JArr (splice1 reviewIndex xs));
                              (success, s') = writeClientData dn s clientId data'
                          in if success then (Reply 200 (message ''Review deleted.''), s')
                             else (Reply 500 (message ''Failed to delete review.''), s'))
                 | JStr t \<Rightarrow>
                     if sublist review t then (Thrown, s)
                     else (Reply 404 (message ''Review not found.''), s)
                 | _ \<Rightarrow> (Thrown, s)))"

subsection \<open>Notions used in the statements\<close>

text \<open>A reply that reports a failure: a client or server error status.\<close>

definition failure :: "response \<Rightarrow> bool" where
  "failure r = (case r of Reply st b \<Rightarrow> 400 \<le> st | Thrown \<Rightarrow> False)"

text \<open>
  The listing of clients as the specification words it, written without reference to
  the handler: a document yields a summary when it is a JSON object that has a
  \<^verbatim>\<open>clientId\<close> and a \<^verbatim>\<open>clientName\<close>, both truthy, and the summary is the object of
  exactly these two fields; any other value yields none.
\<close>

definition spec_summary :: "json \<Rightarrow> json option" where
  "spec_summary d =
     (case d of
        JObj kvs \<Rightarrow>
          (case map_of kvs ''clientId'' of
             None \<Rightarrow> None
           | Some i \<Rightarrow>
               (case map_of kvs ''clientName'' of
                  None \<Rightarrow> None
                | Some n \<Rightarrow>
                    if truthy i \<and> truthy n
                    then Some (JObj [(''clientId'', i), (''clientName'', n)])
                    else None))
      | _ \<Rightarrow> None)"

text \<open>
  The summary that one entry of the disk contributes to that listing, read from the
  entry itself: a parsed \<^verbatim>\<open>.json\<close> file directly inside the data directory
  contributes the summary of its content, anything else contributes nothing.
\<close>

definition entry_summary :: "string \<Rightarrow> string \<times> entry \<Rightarrow> json option" where
  "entry_summary dn pe =
     (case child_name (DATA_DIR dn) (fst pe) of
        None \<Rightarrow> None
      | Some f \<Rightarrow>
          if suffix ''.json'' f then
            (case snd pe of Parsed d \<Rightarrow> spec_summary d | Unreadable \<Rightarrow> None)
          else None)"

text \<open>The file name that \<open>getReviewsFromFile\<close> resolves for its argument.\<close>

definition seed_name :: "string option \<Rightarrow> string" where
  "seed_name fileName =
     (case fileName of
        None \<Rightarrow> ''sample-reviews-200.json''
      | Some f \<Rightarrow> if f = [] then ''sample-reviews-200.json'' else f)"

text \<open>
  The doubles of IEEE 754: a significand of at most 53 bits dmul a power of two with an
  exponent from -1074 to 971. A double nearest to \<open>x\<close> is what an arithmetic operation
  whose exact result is \<open>x\<close> returns (rounding to nearest, whatever the rule for ties).
\<close>

definition is_double :: "rat \<Rightarrow> bool" where
  "is_double x = (\<exists>(m::int) (a::nat) (b::nat).
      \<bar>m\<bar> < 2 ^ 53 \<and> a \<le> 971 \<and> b \<le> 1074 \<and> x = of_int m * 2 ^ a / 2 ^ b)"

definition nearest_double :: "rat \<Rightarrow> rat \<Rightarrow> bool" where
  "nearest_double p x = (is_double p \<and> (\<forall>d. is_double d \<longrightarrow> \<bar>p - x\<bar> \<le> \<bar>d - x\<bar>))"

text \<open>A non-empty array of strings.\<close>

definition nonempty_strings :: "json \<Rightarrow> bool" where
  "nonempty_strings v =
     (case v of
        JArr (x # xs) \<Rightarrow> list_all (\<lambda>y. case y of JStr t \<Rightarrow> True | _ \<Rightarrow> False) (x # xs)
      | _ \<Rightarrow> False)"

subsection \<open>Example data\<close>

text \<open>
  A server installed in \<^verbatim>\<open>/app\<close> whose data directory holds the document of client
  \<^verbatim>\<open>acme123\<close>, a file that is not JSON and a seed file, and a body that passes
  \<^verbatim>\<open>clientUpdateSchema\<close>.
\<close>

definition acme_doc :: json where
  "acme_doc = JObj [(''clientId'', JStr ''acme123''), (''clientName'', JStr ''Acme''),
                    (''reviews'', JArr [JStr ''A'', JStr ''B''])]"

definition demo_store :: store where
  "demo_store = \<lparr>files = [(''/app/data/acme123.json'', Parsed acme_doc),
                            (''/app/data/broken.json'', Unreadable),
                            (''/app/data/two.json'',
                               Parsed (JObj [(''reviews'', JArr [JStr ''Good'', JStr ''Bad''])]))],
                   write_fails = {}, readdir_fails = False\<rparr>"

definition update_body :: "(string \<times> json) list" where
  "update_body = [(''clientName'', JStr ''Acme Ltd''),
                  (''googleReviewLink'', JStr ''https://g.page/acme''),
                  (''primaryColor'', JStr ''#112233''),
                  (''secondaryColor'', JStr ''#445566'')]"

text \<open>
  Three more disks: one with a JSON file beside the data directory, one with a seed file
  whose review list is empty, and one with a document whose name is the empty string.
\<close>

definition outside_store :: store where
  "outside_store = \<lparr>files = [(''/app/package.json'', Parsed (JObj [(''name'', JStr ''server'')]))],
                      write_fails = {}, readdir_fails = False\<rparr>"

definition empty_seed_store :: store where
  "empty_seed_store = \<lparr>files = [(''/app/data/empty.json'', Parsed (JObj [(''reviews'', JArr [])]))],
                         write_fails = {}, readdir_fails = False\<rparr>"

definition blank_name_store :: store where
  "blank_name_store =
     \<lparr>files = [(''/app/data/abc.json'',
                  Parsed (JObj [(''clientId'', JStr ''abc''), (''clientName'', JStr [])]))],
      write_fails = {}, readdir_fails = False\<rparr>"

text \<open>
  Two disks with the default sample: one where it has a review list, beside a file whose
  \<^verbatim>\<open>reviews\<close> is not an array, and one where it has no \<^verbatim>\<open>reviews\<close> at all.
\<close>

definition seeded_store :: store where
  "seeded_store =
     \<lparr>files = [(''/app/data/sample-reviews-200.json'', Parsed (JObj [(''reviews'', JArr [JStr ''Nice''])])),
               (''/app/data/notes.json'', Parsed (JObj [(''reviews'', JStr ''none'')]))],
      write_fails = {}, readdir_fails = False\<rparr>"

definition bare_sample_store :: store where
  "bare_sample_store =
     \<lparr>files = [(''/app/data/sample-reviews-200.json'', Parsed (JObj []))],
      write_fails = {}, readdir_fails = False\<rparr>"

text \<open>A disk whose default sample holds \<^verbatim>\<open>null\<close>.\<close>

definition null_sample_store :: store where
  "null_sample_store =
     \<lparr>files = [(''/app/data/sample-reviews-200.json'', Parsed JNull)],
      write_fails = {}, readdir_fails = False\<rparr>"

text \<open>
  A client with ten reviews, the double next to 0.7, and a multiplication of doubles
  that rounds the product of that double with ten, which lies halfway between two
  doubles, to the even one, 7, and is exact elsewhere.
\<close>

definition ten_store :: store where
  "ten_store =
     \<lparr>files = [(''/app/data/ten.json'',
                  Parsed (JObj [(''reviews'', JArr (map (\<lambda>c. JStr [c]) ''0123456789''))]))],
      write_fails = {}, readdir_fails = False\<rparr>"

definition seven_tenths :: rat where
  "seven_tenths = 6305039478318694 / 2 ^ 53"

definition dmul_example :: "rat \<Rightarrow> rat \<Rightarrow> rat" where
  "dmul_example a b = (if a = seven_tenths \<and> b = 10 then 7 else a * b)"

section \<open>Properties\<close>

subsection \<open>Joining a plain name to the data directory\<close>

lemma split_on_not_Nil: "split_on c s \<noteq> []"
  by (induction s) (auto split: list.splits)

lemma split_on_append: "split_on c (a @ c # b) = split_on c a @ split_on c b"
  by (induction a) (auto simp: split_on_not_Nil split: list.splits)

lemma split_on_none: "c \<notin> set s \<Longrightarrow> split_on c s = [s]"
  by (induction s) auto

lemma split_on_free: "t \<in> set (split_on c s) \<Longrightarrow> c \<notin> set t"
proof (induction s arbitrary: t)
  case Nil
  then show ?case by simp
next
  case (Cons x s)
  show ?case
  proof (cases "x = c")
    case True
    with Cons show ?thesis by auto
  next
    case False
    obtain u us where u: "split_on c s = u # us"
      using split_on_not_Nil [of c s] by (cases "split_on c s") auto
    from Cons.prems False u have "t = x # u \<or> t \<in> set us" by simp
    then show ?thesis
    proof
      assume "t = x # u"
      moreover have "c \<notin> set u" using Cons.IH u by simp
      ultimately show ?thesis using False by auto
    next
      assume "t \<in> set us"
      then have "t \<in> set (split_on c s)" using u by simp
      then show ?thesis by (rule Cons.IH)
    qed
  qed
qed

lemma norm_segs_plain: "list_all plain ss \<Longrightarrow> norm_segs up res ss = res @ ss"
  by (induction ss arbitrary: res) (auto simp: plain_def)

lemma norm_segs_append: "norm_segs up res (xs @ ys) = norm_segs up (norm_segs up res xs) ys"
  by (induction xs arbitrary: res) auto

lemma list_all_butlast: "list_all P xs \<Longrightarrow> list_all P (butlast xs)"
  by (induction xs) auto

lemma norm_segs_keeps_plain:
  "list_all plain res \<Longrightarrow> (\<forall>t \<in> set ss. CHR ''/'' \<notin> set t) \<Longrightarrow> list_all plain (norm_segs False res ss)"
proof (induction ss arbitrary: res)
  case Nil
  then show ?case by simp
next
  case (Cons a ss)
  then show ?case
    by (auto simp: plain_def list_all_butlast intro!: Cons.IH)
qed

lemma join_segs_snoc: "ss \<noteq> [] \<Longrightarrow> join_segs (ss @ [n]) = join_segs ss @ ''/'' @ n"
  by (induction ss rule: join_segs.induct) auto

lemma join_segs_not_Nil: "ss \<noteq> [] \<Longrightarrow> list_all plain ss \<Longrightarrow> join_segs ss \<noteq> []"
  by (induction ss rule: join_segs.induct) (auto simp: plain_def)

lemma split_join_segs: "ss \<noteq> [] \<Longrightarrow> list_all plain ss \<Longrightarrow> split_on CHR ''/'' (join_segs ss) = ss"
proof (induction ss rule: join_segs.induct)
  case 1
  then show ?case by simp
next
  case (2 s)
  then show ?case by (simp add: split_on_none plain_def)
next
  case (3 s t ss)
  have "split_on CHR ''/'' (s @ CHR ''/'' # join_segs (t # ss)) = split_on CHR ''/'' s @ split_on CHR ''/'' (join_segs (t # ss))"
    by (rule split_on_append)
  with 3 show ?case by (simp add: split_on_none plain_def)
qed

lemma DATA_DIR_shape:
  assumes "dn = CHR ''/'' # rest"
  shows "\<exists>S. S \<noteq> [] \<and> list_all plain S \<and> DATA_DIR dn = CHR ''/'' # join_segs S"
proof -
  let ?N = "norm_segs False [] (split_on CHR ''/'' dn)"
  let ?S = "?N @ [''data'']"
  have pl: "list_all plain ?N"
    by (rule norm_segs_keeps_plain) (auto dest: split_on_free)
  have plS: "list_all plain ?S" using pl by (simp add: plain_def)
  have split: "split_on CHR ''/'' (dn @ ''/data'') = split_on CHR ''/'' dn @ [''data'']"
    using split_on_append [of "CHR ''/''" dn "''data''"] by (simp add: split_on_none)
  have norm: "norm_segs False [] (split_on CHR ''/'' (dn @ ''/data'')) = ?S"
    by (simp add: split norm_segs_append)
  have ne: "join_segs ?S \<noteq> []" by (rule join_segs_not_Nil) (use plS in auto)
  have "DATA_DIR dn = CHR ''/'' # join_segs ?S"
    using assms ne norm by (simp add: DATA_DIR_def path_join_def path_normalize_def Let_def)
  with plS show ?thesis by blast
qed

lemma path_join_plain:
  assumes S: "S \<noteq> []" "list_all plain S" and n: "plain n"
  shows "path_join (CHR ''/'' # join_segs S) n = CHR ''/'' # join_segs S @ ''/'' @ n"
proof -
  let ?p = "(CHR ''/'' # join_segs S) @ ''/'' @ n"
  have n1: "n \<noteq> []" and n2: "CHR ''/'' \<notin> set n" using n by (auto simp: plain_def)
  have "last n \<noteq> CHR ''/''" using n1 n2 last_in_set by metis
  then have last: "last ?p \<noteq> CHR ''/''" using n1 by simp
  have split0: "split_on CHR ''/'' (join_segs S @ CHR ''/'' # n) = S @ [n]"
    using split_on_append [of "CHR ''/''" "join_segs S" n] S n2
    by (simp add: split_join_segs split_on_none)
  have norm: "norm_segs False [] (split_on CHR ''/'' ?p) = S @ [n]"
    using S n by (simp add: split0 norm_segs_plain)
  have js: "join_segs (S @ [n]) = join_segs S @ ''/'' @ n" using S by (simp add: join_segs_snoc)
  have "path_normalize ?p = CHR ''/'' # join_segs S @ ''/'' @ n"
    using last norm js n1 unfolding path_normalize_def Let_def by simp
  then show ?thesis using n1 by (simp add: path_join_def)
qed

lemma path_join_DATA_DIR:
  assumes "dn = CHR ''/'' # rest" and "plain n"
  shows "path_join (DATA_DIR dn) n = DATA_DIR dn @ ''/'' @ n"
  using DATA_DIR_shape [OF assms(1)] path_join_plain [OF _ _ assms(2)] by auto

lemma plain_json: "CHR ''/'' \<notin> set c \<Longrightarrow> plain (c @ ''.json'')"
  by (cases c rule: rev_cases) (auto simp: plain_def)

subsection \<open>Reading and writing documents\<close>

lemma map_of_put_file: "map_of (put_file p e fs) q = (if q = p then Some e else map_of fs q)"
  by (induction fs) auto

lemma put_file_new: "map_of fs p = None \<Longrightarrow> put_file p e fs = fs @ [(p, e)]"
  by (induction fs) (auto split: if_splits)

lemma map_of_obj_assign:
  "map_of (obj_assign a b) k = (case map_of b k of Some v \<Rightarrow> Some v | None \<Rightarrow> map_of a k)"
proof -
  have m: "map_of (map (\<lambda>(k, v). (k, case map_of b k of Some v' \<Rightarrow> v' | None \<Rightarrow> v)) a) k
           = (case map_of a k of None \<Rightarrow> None
              | Some v \<Rightarrow> Some (case map_of b k of Some v' \<Rightarrow> v' | None \<Rightarrow> v))"
    by (induction a) (auto split: option.splits)
  have f: "map_of a k = None \<Longrightarrow> map_of (filter (\<lambda>(k, v). map_of a k = None) b) k = map_of b k"
    by (induction b) auto
  show ?thesis
    by (cases "map_of a k") (auto simp: obj_assign_def map_add_def m f split: option.splits)
qed

lemma writeClientData_ok:
  "getClientDataPath dn c \<notin> write_fails s \<Longrightarrow>
   writeClientData dn s c d = (True, s\<lparr>files := put_file (getClientDataPath dn c) (Parsed d) (files s)\<rparr>)"
  by (simp add: writeClientData_def)

lemma writeClientData_fail:
  "getClientDataPath dn c \<in> write_fails s \<Longrightarrow> writeClientData dn s c d = (False, s)"
  by (simp add: writeClientData_def)

lemma getClientData_written:
  "getClientData dn (s\<lparr>files := put_file (getClientDataPath dn c) (Parsed d) (files s)\<rparr>) c = d"
  by (simp add: getClientData_def pathExists_def readJson_def map_of_put_file)

lemma getClientData_Parsed:
  "map_of (files s) (getClientDataPath dn c) = Some (Parsed d) \<Longrightarrow> getClientData dn s c = d"
  by (simp add: getClientData_def pathExists_def readJson_def)

lemma getClientData_truthy:
  "truthy (getClientData dn s c) \<Longrightarrow>
   map_of (files s) (getClientDataPath dn c) = Some (Parsed (getClientData dn s c))"
  by (auto simp: getClientData_def pathExists_def readJson_def Let_def
           split: option.splits entry.splits if_splits)

lemma strict_eq_JStr: "strict_eq x (JStr t) = (x = JStr t)"
  by (cases x) auto

lemma index_of_None: "index_of (JStr t) xs = None \<longleftrightarrow> JStr t \<notin> set xs"
  by (induction xs) (auto simp: strict_eq_JStr split: option.splits)

lemma index_of_Some:
  "index_of (JStr t) xs = Some i \<Longrightarrow>
   i < length xs \<and> xs ! i = JStr t \<and> JStr t \<notin> set (take i xs) \<and> splice1 i xs = remove1 (JStr t) xs"
proof (induction xs arbitrary: i)
  case Nil
  then show ?case by simp
next
  case (Cons x xs)
  show ?case
  proof (cases "x = JStr t")
    case True
    with Cons.prems show ?thesis by (simp add: splice1_def strict_eq_JStr)
  next
    case False
    with Cons.prems obtain j where j: "index_of (JStr t) xs = Some j" "i = Suc j"
      by (auto simp: strict_eq_JStr split: option.splits)
    from Cons.IH [OF j(1)] j(2) False show ?thesis by (simp add: splice1_def)
  qed
qed

lemma jprop_jset: "jprop (jset (JObj kvs) k v) k = Some v"
  by (simp add: map_of_obj_assign)

lemma listReviews_Parsed:
  "map_of (files s) (getClientDataPath dn c) = Some (Parsed (JObj kvs)) \<Longrightarrow>
   listReviews dn s c = Reply 200 (JObj [(''reviews'', reviews_or_empty (JObj kvs))])"
  by (simp add: listReviews_def getClientData_Parsed)

lemma listReviews_written:
  "listReviews dn (s\<lparr>files := put_file (getClientDataPath dn c) (Parsed (JObj kvs)) (files s)\<rparr>) c
   = Reply 200 (JObj [(''reviews'', reviews_or_empty (JObj kvs))])"
  by (simp add: listReviews_def getClientData_written)

lemma reviews_or_empty_jset:
  "reviews_or_empty (jset (JObj kvs) ''reviews'' (JArr ys)) = JArr ys"
  by (simp add: reviews_or_empty_def map_of_obj_assign)

lemma listReviews_Reply:
  "listReviews dn s c = Reply 200 (JObj [(''reviews'', v)]) \<Longrightarrow>
   truthy (getClientData dn s c) \<and> reviews_or_empty (getClientData dn s c) = v"
  by (auto simp: listReviews_def Let_def split: if_splits)

lemma reviews_JArr_obj:
  "reviews_or_empty d = JArr xs \<Longrightarrow> xs \<noteq> [] \<Longrightarrow> \<exists>kvs. d = JObj kvs"
  by (cases d) (auto simp: reviews_or_empty_def)

lemma digit_char_not_s: "k < 10 \<Longrightarrow> digit_char k \<noteq> CHR ''s''"
proof
  assume k: "k < 10" and "digit_char k = CHR ''s''"
  then have "(of_char (digit_char k) :: nat) = of_char (CHR ''s'')" by simp
  with k show False by (simp add: digit_char_def)
qed

lemma show_nat_last: "last (show_nat n) = digit_char (n mod 10)"
  by (subst show_nat.simps) simp

lemma show_nat_not_reviews: "show_nat n \<noteq> ''reviews''"
proof
  assume "show_nat n = ''reviews''"
  then have "last (show_nat n) = CHR ''s''" by simp
  then show False using digit_char_not_s [of "n mod 10"] by (simp add: show_nat_last)
qed

lemma spread_props_reviews: "map_of (spread_props d) ''reviews'' = jprop d ''reviews''"
proof (cases d)
  case (JArr xs)
  have "''reviews'' \<notin> set (map show_nat [0..<length xs])"
    by (auto simp: show_nat_not_reviews [THEN not_sym])
  then have "map_of (zip (map show_nat [0..<length xs]) xs) ''reviews'' = None"
    by (subst map_of_zip_is_None) simp_all
  with JArr show ?thesis by simp
next
  case (JStr t)
  have "''reviews'' \<notin> set (map show_nat [0..<length t])"
    by (auto simp: show_nat_not_reviews [THEN not_sym])
  then have "map_of (zip (map show_nat [0..<length t]) (map (\<lambda>c. JStr [c]) t)) ''reviews'' = None"
    by (subst map_of_zip_is_None) simp_all
  with JStr show ?thesis by simp
qed simp_all

lemma schema_keys:
  assumes "clientUpdateSchema is_uri body" and "map_of body k = Some v"
  shows "k \<in> set [''clientName'', ''googleReviewLink'', ''logoUrl'', ''primaryColor'', ''secondaryColor'']"
proof -
  from assms(2) have "(k, v) \<in> set body" by (rule map_of_SomeD)
  moreover from assms(1) have "\<forall>(k, v) \<in> set body.
      k \<in> set [''clientName'', ''googleReviewLink'', ''logoUrl'', ''primaryColor'', ''secondaryColor'']"
    unfolding clientUpdateSchema_def list_all_iff by blast
  ultimately show ?thesis by blast
qed

lemma schema_no_reviews: "clientUpdateSchema is_uri body \<Longrightarrow> map_of body ''reviews'' = None"
proof (cases "map_of body ''reviews''")
  case (Some v)
  assume "clientUpdateSchema is_uri body"
  from schema_keys [OF this Some] show ?thesis by simp
qed simp

lemma schema_no_clientId: "clientUpdateSchema is_uri body \<Longrightarrow> map_of body ''clientId'' = None"
proof (cases "map_of body ''clientId''")
  case (Some v)
  assume "clientUpdateSchema is_uri body"
  from schema_keys [OF this Some] show ?thesis by simp
qed simp

subsection \<open>The rounded product of a random number and a length\<close>

lemma is_double_0: "is_double 0"
  unfolding is_double_def by (intro exI [of _ 0]) simp

lemma double_below_one:
  assumes "is_double r" "r < 1"
  shows "r \<le> 1 - 1 / 2 ^ 53"
proof -
  from assms(1) obtain m :: int and a b :: nat
    where m: "\<bar>m\<bar> < 2 ^ 53" and r: "r = of_int m * 2 ^ a / 2 ^ b"
    unfolding is_double_def by blast
  show ?thesis
  proof (cases "b \<le> a + 53")
    case True
    define c where "c = a + 53 - b"
    have "a + 53 = b + c" using True by (simp add: c_def)
    then have "(2::rat) ^ a * 2 ^ 53 = 2 ^ b * 2 ^ c"
      by (metis power_add)
    then have "r * 2 ^ 53 = of_int m * 2 ^ c"
      unfolding r by (simp add: field_simps)
    also have "\<dots> = of_int (m * 2 ^ c)" by simp
    finally have eq: "r * 2 ^ 53 = of_int (m * 2 ^ c)" .
    from assms(2) have "r * 2 ^ 53 < 2 ^ 53" by simp
    with eq have "(of_int (m * 2 ^ c) :: rat) < of_int (2 ^ 53)" by simp
    then have "m * 2 ^ c < 2 ^ 53" by (simp only: of_int_less_iff)
    then have "m * 2 ^ c \<le> 2 ^ 53 - 1" by simp
    then have "(of_int (m * 2 ^ c) :: rat) \<le> of_int (2 ^ 53 - 1)" by (simp only: of_int_le_iff)
    with eq have "r * 2 ^ 53 \<le> 2 ^ 53 - 1" by simp
    then show ?thesis by (simp add: field_simps)
  next
    case False
    then have "a + 54 \<le> b" by simp
    then have "(2::rat) ^ (a + 54) \<le> 2 ^ b" by (intro power_increasing) simp_all
    then have le: "(2::rat) ^ a * 2 ^ 54 \<le> 2 ^ b" by (simp add: power_add)
    have "of_int m \<le> (of_int \<bar>m\<bar> :: rat)" by simp
    also have "\<dots> < of_int (2 ^ 53)" using m by (simp only: of_int_less_iff)
    finally have mm: "(of_int m :: rat) < 2 ^ 53" by simp
    have "r * 2 ^ b = of_int m * 2 ^ a" unfolding r by simp
    also have "\<dots> < 2 ^ 53 * 2 ^ a" using mm by simp
    finally have "r * 2 ^ b * 2 < 2 ^ a * 2 ^ 54" by simp
    then have B: "r * 2 ^ b * 2 < 2 ^ b" using le by (rule less_le_trans)
    have "r * 2 < 1"
    proof (rule ccontr)
      assume "\<not> r * 2 < 1"
      then have "1 \<le> r * 2" by simp
      then have "(2::rat) ^ b \<le> r * 2 ^ b * 2" by simp
      with B show False by linarith
    qed
    then show ?thesis by simp
  qed
qed



lemma double_pow2_pred: "k < 32 \<Longrightarrow> is_double (2 ^ k - 2 ^ k / 2 ^ 53)"
proof -
  assume k: "k < 32"
  have "(of_int (2 ^ 53 - 1) * 2 ^ k / 2 ^ 53 :: rat) = 2 ^ k - 2 ^ k / 2 ^ 53"
    by (simp add: field_simps)
  moreover have "is_double (of_int (2 ^ 53 - 1) * 2 ^ k / 2 ^ 53)"
    unfolding is_double_def
  proof (intro exI conjI)
    show "\<bar>2 ^ 53 - 1 :: int\<bar> < 2 ^ 53" by simp
    show "k \<le> 971" using k by simp
    show "(53::nat) \<le> 1074" by simp
    show "(of_int (2 ^ 53 - 1) * 2 ^ k / 2 ^ 53 :: rat) = of_int (2 ^ 53 - 1) * 2 ^ k / 2 ^ 53" ..
  qed
  ultimately show ?thesis by simp
qed


lemma double_mid_pred:
  fixes n k :: nat
  assumes "0 < n" "n < 2 ^ (k + 1)" "k < 32"
  shows "is_double (of_nat n - 2 ^ k / 2 ^ 52)"
proof -
  define m :: int where "m = int n * 2 ^ (52 - k) - 1"
  have pk: "(2::rat) ^ (52 - k) * 2 ^ k = 2 ^ 52"
    using assms(3) by (simp add: power_add [symmetric])
  have pk': "(2::int) ^ (k + 1) * 2 ^ (52 - k) = 2 ^ 53"
    using assms(3) by (simp add: power_add [symmetric])
  from assms(2) have "int n < int (2 ^ (k + 1))" by (simp only: of_nat_less_iff)
  then have "int n < 2 ^ (k + 1)" by simp
  then have "int n * 2 ^ (52 - k) < 2 ^ (k + 1) * 2 ^ (52 - k)"
    by (intro mult_strict_right_mono) simp_all
  then have up: "m < 2 ^ 53" unfolding pk' by (simp add: m_def)
  have "1 * 1 \<le> int n * 2 ^ (52 - k)"
    using assms(1) by (intro mult_mono) simp_all
  then have "0 \<le> m" by (simp add: m_def)
  with up have mb: "\<bar>m\<bar> < 2 ^ 53" by simp
  have mr: "rat_of_int m = of_nat n * 2 ^ (52 - k) - 1" by (simp add: m_def)
  have "rat_of_int m * 2 ^ k = (of_nat n * 2 ^ (52 - k) - 1) * 2 ^ k" by (simp only: mr)
  also have "\<dots> = of_nat n * (2 ^ (52 - k) * 2 ^ k) - 2 ^ k" by (simp add: algebra_simps)
  finally have "rat_of_int m * 2 ^ k = of_nat n * 2 ^ 52 - 2 ^ k" by (simp only: pk)
  then have eq: "rat_of_int m * 2 ^ k / 2 ^ 52 = of_nat n - 2 ^ k / 2 ^ 52"
    by (simp add: field_simps)
  have d: "is_double (rat_of_int m * 2 ^ k / 2 ^ 52)"
    unfolding is_double_def
  proof (intro exI conjI)
    show "\<bar>m\<bar> < 2 ^ 53" by (rule mb)
    show "k \<le> 971" using assms(3) by simp
    show "(52::nat) \<le> 1074" by simp
    show "rat_of_int m * 2 ^ k / 2 ^ 52 = rat_of_int m * 2 ^ k / 2 ^ 52" ..
  qed
  show ?thesis using d by (simp only: eq)
qed


lemma abs_gap:
  fixes N x U :: rat
  assumes "0 < U" "U < N - x"
  shows "\<bar>(N - 2 * U) - x\<bar> < N - x"
  using assms by linarith

lemma rounded_product_range:
  fixes n :: nat
  assumes r: "is_double r" "0 \<le> r" "r < 1"
    and n: "0 < n" "n < 2 ^ 32"
    and p: "nearest_double p (r * of_nat n)"
  shows "0 \<le> p \<and> p < of_nat n"
proof -
  define N :: rat where "N = of_nat n"
  define x where "x = r * N"
  have x0: "0 \<le> x" using r(2) by (simp add: x_def N_def)
  have near: "\<And>d. is_double d \<Longrightarrow> \<bar>p - x\<bar> \<le> \<bar>d - x\<bar>"
    using p unfolding nearest_double_def x_def N_def by blast
  have lo: "0 \<le> p"
  proof (rule ccontr)
    assume "\<not> 0 \<le> p"
    then have "\<bar>0 - x\<bar> < \<bar>p - x\<bar>" using x0 by linarith
    with near [OF is_double_0] show False by linarith
  qed
  have rb: "r \<le> 1 - 1 / 2 ^ 53" using r(1,3) by (rule double_below_one)
  have Npos: "0 < N" using n(1) by (simp add: N_def)
  have "r * N \<le> (1 - 1 / 2 ^ 53) * N" using rb Npos by (intro mult_right_mono) simp_all
  then have xb: "x \<le> N - N / 2 ^ 53" by (simp add: x_def algebra_simps)
  obtain k where k: "2 ^ k \<le> n" "n < 2 ^ (k + 1)"
    using ex_power_ivl1 [of 2 n] n(1) by auto
  have "(2::nat) ^ k < 2 ^ 32" using k(1) n(2) by (rule le_less_trans)
  then have k32: "k < 32" by (rule power_less_imp_less_exp [of 2, rotated]) simp
  have hi: "p < N"
  proof (rule ccontr)
    assume "\<not> p < N"
    then have pN: "N \<le> p" by simp
    have "\<exists>d. is_double d \<and> \<bar>d - x\<bar> < N - x"
    proof (cases "n = 2 ^ k")
      case True
      then have Nk: "N = 2 ^ k" by (simp add: N_def)
      have "is_double (N - N / 2 ^ 53)" unfolding Nk using k32 by (rule double_pow2_pred)
      moreover have "0 < N / 2 ^ 53" using Npos by simp
      with xb have "\<bar>(N - N / 2 ^ 53) - x\<bar> < N - x" by linarith
      ultimately show ?thesis by blast
    next
      case False
      with k(1) have "2 ^ k < n" by simp
      then have "(of_nat (2 ^ k) :: rat) < of_nat n" by (simp only: of_nat_less_iff)
      then have Nk: "(2::rat) ^ k < N" by (simp add: N_def)
      define U :: rat where "U = 2 ^ k / 2 ^ 53"
      have U: "0 < U" by (simp add: U_def)
      have "U < N / 2 ^ 53" unfolding U_def using Nk by (rule divide_strict_right_mono) simp
      with xb have gap: "U < N - x" by linarith
      have "(2::rat) ^ k / 2 ^ 52 = 2 * U" by (simp add: U_def)
      moreover have "is_double (N - 2 ^ k / 2 ^ 52)"
        unfolding N_def using n(1) k(2) k32 by (rule double_mid_pred)
      ultimately have "is_double (N - 2 * U)" by simp
      with abs_gap [OF U gap] show ?thesis by blast
    qed
    then obtain d where d: "is_double d" "\<bar>d - x\<bar> < N - x" by blast
    from pN xb Npos have "N - x \<le> \<bar>p - x\<bar>" by linarith
    with d(2) near [OF d(1)] show False by linarith
  qed
  from lo hi show ?thesis by (simp add: N_def)
qed

lemma pick_in_range:
  assumes "xs \<noteq> []" "length xs < 2 ^ 32" "is_double r" "0 \<le> r" "r < 1"
    and "nearest_double (dmul r (of_nat (length xs))) (r * of_nat (length xs))"
  shows "\<exists>i. i < length xs \<and> int i = \<lfloor>dmul r (of_nat (length xs))\<rfloor>
            \<and> pick dmul r xs = Some (xs ! i)"
proof -
  let ?n = "length xs"
  let ?p = "dmul r (of_nat ?n)"
  let ?k = "\<lfloor>?p\<rfloor>"
  have n: "0 < ?n" using assms(1) by simp
  from rounded_product_range [OF assms(3,4,5) n assms(2,6)]
  have p: "0 \<le> ?p" "?p < of_nat ?n" by simp_all
  from p(1) have lo: "0 \<le> ?k" by simp
  from p(2) have "?p < of_int (int ?n)" by simp
  then have hi: "?k < int ?n" by (simp only: floor_less_iff)
  from lo hi have "nat ?k < ?n" using nat_less_iff by blast
  moreover from lo have "int (nat ?k) = ?k" by (rule nat_0_le)
  moreover have "pick dmul r xs = (if 0 \<le> ?k \<and> ?k < int ?n then Some (xs ! nat ?k) else None)"
    by (simp add: pick_def Let_def)
  with lo hi have "pick dmul r xs = Some (xs ! nat ?k)" by (simp only: simp_thms if_True)
  ultimately show ?thesis by blast
qed

lemma double_scaled_integer:
  assumes "is_double d" "4 < d"
  shows "\<exists>z::int. d * 2 ^ 50 = of_int z"
proof -
  from assms(1) obtain m :: int and a b :: nat
    where m: "\<bar>m\<bar> < 2 ^ 53" and d: "d = of_int m * 2 ^ a / 2 ^ b"
    unfolding is_double_def by blast
  have "of_int m \<le> (of_int \<bar>m\<bar> :: rat)" by simp
  also have "\<dots> < of_int (2 ^ 53)" using m by (simp only: of_int_less_iff)
  finally have mm: "(of_int m :: rat) < 2 ^ 53" by simp
  have db: "d * 2 ^ b = of_int m * 2 ^ a" unfolding d by simp
  have "b \<le> a + 50"
  proof (rule ccontr)
    assume "\<not> b \<le> a + 50"
    then have "a + 51 \<le> b" by simp
    then have "(2::rat) ^ (a + 51) \<le> 2 ^ b" by (intro power_increasing) simp_all
    then have le: "(2::rat) ^ a * 2 ^ 51 \<le> 2 ^ b" by (simp add: power_add)
    have "4 * 2 ^ b < d * 2 ^ b" using assms(2) by simp
    also have "\<dots> < 2 ^ 53 * 2 ^ a" unfolding db using mm by simp
    finally have "4 * (2::rat) ^ b < 4 * (2 ^ a * 2 ^ 51)" by simp
    then have "(2::rat) ^ b < 2 ^ a * 2 ^ 51" by (simp only: mult_less_cancel_left_pos zero_less_numeral)
    with le show False by linarith
  qed
  define c where "c = a + 50 - b"
  have "a + 50 = b + c" using \<open>b \<le> a + 50\<close> by (simp add: c_def)
  then have "(2::rat) ^ a * 2 ^ 50 = 2 ^ b * 2 ^ c" by (metis power_add)
  then have "d * 2 ^ 50 = of_int m * 2 ^ c" unfolding d by (simp add: field_simps)
  also have "\<dots> = of_int (m * 2 ^ c)" by simp
  finally show ?thesis by blast
qed

lemma is_double_7: "is_double 7"
  unfolding is_double_def
proof (intro exI conjI)
  show "\<bar>7 :: int\<bar> < 2 ^ 53" by simp
  show "(0::nat) \<le> 971" "(0::nat) \<le> 1074" by simp_all
  show "(7::rat) = of_int 7 * 2 ^ 0 / 2 ^ 0" by simp
qed

lemma seven_gap: "7 - seven_tenths * 10 = 1 / 2 ^ 51"
  by (simp add: seven_tenths_def)

lemma nearest_seven: "nearest_double 7 (seven_tenths * 10)"
  unfolding nearest_double_def
proof (intro conjI allI impI)
  show "is_double 7" by (rule is_double_7)
next
  fix d assume d: "is_double d"
  let ?x = "seven_tenths * 10"
  show "\<bar>7 - ?x\<bar> \<le> \<bar>d - ?x\<bar>"
  proof (rule ccontr)
    assume "\<not> \<bar>7 - ?x\<bar> \<le> \<bar>d - ?x\<bar>"
    then have "\<bar>d - ?x\<bar> < 1 / 2 ^ 51" using seven_gap by simp
    then have "?x - 1 / 2 ^ 51 < d" "d < ?x + 1 / 2 ^ 51" by linarith+
    with seven_gap have lo: "7 - 2 / 2 ^ 51 < d" and hi: "d < 7" by linarith+
    have "(2::rat) / 2 ^ 51 \<le> 3" by simp
    with lo have "4 < d" by linarith
    from double_scaled_integer [OF d this] obtain z :: int where z: "d * 2 ^ 50 = of_int z"
      by blast
    have "(7 - 2 / 2 ^ 51) * 2 ^ 50 < d * 2 ^ 50" using lo by (simp only: mult_less_cancel_right_pos zero_less_power zero_less_numeral)
    then have "(of_int (7 * 2 ^ 50 - 1) :: rat) < of_int z" unfolding z by simp
    then have "7 * 2 ^ 50 - 1 < z" by (simp only: of_int_less_iff)
    moreover have "d * 2 ^ 50 < 7 * 2 ^ 50" using hi by (simp only: mult_less_cancel_right_pos zero_less_power zero_less_numeral)
    then have "(of_int z :: rat) < of_int (7 * 2 ^ 50)" unfolding z by simp
    then have "z < 7 * 2 ^ 50" by (simp only: of_int_less_iff)
    ultimately show False by linarith
  qed
qed

lemma is_double_seven_tenths: "is_double seven_tenths"
  unfolding is_double_def seven_tenths_def
proof (intro exI conjI)
  show "\<bar>6305039478318694 :: int\<bar> < 2 ^ 53" by simp
  show "(0::nat) \<le> 971" "(53::nat) \<le> 1074" by simp_all
  show "(6305039478318694 / 2 ^ 53 :: rat) = of_int 6305039478318694 * 2 ^ 0 / 2 ^ 53" by simp
qed

lemma is_double_half: "is_double (1 / 2)"
  unfolding is_double_def
proof (intro exI conjI)
  show "\<bar>1 :: int\<bar> < 2 ^ 53" by simp
  show "(0::nat) \<le> 971" "(1::nat) \<le> 1074" by simp_all
  show "(1 / 2 :: rat) = of_int 1 * 2 ^ 0 / 2 ^ 1" by simp
qed

lemma is_double_1: "is_double 1"
  unfolding is_double_def
proof (intro exI conjI)
  show "\<bar>1 :: int\<bar> < 2 ^ 53" by simp
  show "(0::nat) \<le> 971" "(0::nat) \<le> 1074" by simp_all
  show "(1 :: rat) = of_int 1 * 2 ^ 0 / 2 ^ 0" by simp
qed

lemma nearest_exact: "is_double x \<Longrightarrow> nearest_double x x"
  by (simp add: nearest_double_def)

subsection \<open>The example installation\<close>

lemma app_data_dir: "DATA_DIR ''/app'' = ''/app/data''"
  by (simp add: DATA_DIR_def path_join_def path_normalize_def)

lemma app_join: "plain f \<Longrightarrow> path_join ''/app/data'' f = ''/app/data/'' @ f"
  using path_join_DATA_DIR [of "''/app''" "''app''" f] by (simp add: app_data_dir)

lemma app_path: "CHR ''/'' \<notin> set c \<Longrightarrow> getClientDataPath ''/app'' c = ''/app/data/'' @ c @ ''.json''"
  by (simp add: getClientDataPath_def app_data_dir app_join plain_json)

lemma app_sample: "SAMPLE_REVIEWS_FILE ''/app'' = ''/app/data/sample-reviews-200.json''"
  by (simp add: SAMPLE_REVIEWS_FILE_def app_data_dir app_join plain_def)

lemma demo_ghost: "getClientData ''/app'' demo_store ''ghost'' = JNull"
  by (simp add: getClientData_def pathExists_def app_path demo_store_def)

lemma demo_acme: "getClientData ''/app'' demo_store ''acme123'' = acme_doc"
  by (simp add: getClientData_def pathExists_def readJson_def app_path demo_store_def)

lemma demo_acme_file:
  "map_of (files demo_store) (getClientDataPath ''/app'' ''acme123'') = Some (Parsed acme_doc)"
  by (simp add: app_path demo_store_def)

lemma demo_acme_reviews:
  "listReviews ''/app'' demo_store ''acme123'' = Reply 200 (JObj [(''reviews'', JArr [JStr ''A'', JStr ''B''])])"
  by (simp add: listReviews_def demo_acme) (simp add: acme_doc_def reviews_or_empty_def)

lemma demo_seed: "getReviewsFromFile ''/app'' demo_store (Some ''two.json'') = JArr [JStr ''Good'', JStr ''Bad'']"
  by (simp add: getReviewsFromFile_def app_data_dir app_join plain_def pathExists_def readJson_def
        demo_store_def)

subsection \<open>Path containment\<close>

lemma sample_path:
  "dn = CHR ''/'' # rest \<Longrightarrow>
   SAMPLE_REVIEWS_FILE dn = DATA_DIR dn @ ''/sample-reviews-200.json''"
  using path_join_DATA_DIR [of dn rest "''sample-reviews-200.json''"]
  by (simp add: SAMPLE_REVIEWS_FILE_def plain_def)

lemma default_reviews_cong:
  assumes "map_of (files s) (SAMPLE_REVIEWS_FILE dn) = map_of (files s') (SAMPLE_REVIEWS_FILE dn)"
  shows "default_reviews dn s = default_reviews dn s'"
  using assms by (simp add: default_reviews_def readJson_def)

lemma getReviewsFromFile_cong:
  assumes "\<And>p. prefix (DATA_DIR dn) p \<Longrightarrow> map_of (files s) p = map_of (files s') p"
    and "prefix (DATA_DIR dn) (SAMPLE_REVIEWS_FILE dn)"
  shows "getReviewsFromFile dn s seed = getReviewsFromFile dn s' seed"
proof -
  have d: "default_reviews dn s = default_reviews dn s'"
    using assms by (intro default_reviews_cong) simp
  show ?thesis
    unfolding getReviewsFromFile_def Let_def pathExists_def readJson_def
    using assms(1) d by (auto split: option.splits json.splits)
qed

lemma escape_path: "getClientDataPath ''/app'' ''../package'' = ''/app/package.json''"
  by (simp add: getClientDataPath_def app_data_dir path_join_def path_normalize_def)

lemma etc_path: "path_join ''/app/data'' ''../../etc/passwd'' = ''/etc/passwd''"
  by (simp add: path_join_def path_normalize_def)

text \<open>
  What the code ensures, for a server in an absolute directory: \<open>getReviewsFromFile\<close>
  answers with the security warning whenever the joined and normalised path of a seed
  name does not begin with the data directory, and its result never depends on a file
  whose path does not begin with the data directory; \<open>getClientDataPath\<close> yields the
  file \<^verbatim>\<open><id>.json\<close> directly inside the data directory whenever the identifier has
  no \<^verbatim>\<open>/\<close> in it.
\<close>

lemma path_containment:
  "dn = CHR ''/'' # rest \<longrightarrow>
     (f \<noteq> [] \<and> \<not> prefix (DATA_DIR dn) (path_join (DATA_DIR dn) f) \<longrightarrow>
        getReviewsFromFile dn s (Some f) = security_warning)
     \<and> ((\<forall>p. prefix (DATA_DIR dn) p \<longrightarrow> map_of (files s) p = map_of (files s') p) \<longrightarrow>
          getReviewsFromFile dn s seed = getReviewsFromFile dn s' seed)
     \<and> (CHR ''/'' \<notin> set c \<longrightarrow> getClientDataPath dn c = DATA_DIR dn @ ''/'' @ c @ ''.json'')"
proof (intro impI conjI)
  assume "f \<noteq> [] \<and> \<not> prefix (DATA_DIR dn) (path_join (DATA_DIR dn) f)"
  then show "getReviewsFromFile dn s (Some f) = security_warning"
    by (simp add: getReviewsFromFile_def)
next
  assume dn: "dn = CHR ''/'' # rest"
    and eq: "\<forall>p. prefix (DATA_DIR dn) p \<longrightarrow> map_of (files s) p = map_of (files s') p"
  have "prefix (DATA_DIR dn) (SAMPLE_REVIEWS_FILE dn)"
    by (simp add: sample_path [OF dn])
  with eq show "getReviewsFromFile dn s seed = getReviewsFromFile dn s' seed"
    by (intro getReviewsFromFile_cong) simp_all
next
  assume dn: "dn = CHR ''/'' # rest" and "CHR ''/'' \<notin> set c"
  then show "getClientDataPath dn c = DATA_DIR dn @ ''/'' @ c @ ''.json''"
    using path_join_DATA_DIR [OF dn, of "c @ ''.json''"]
    by (simp add: getClientDataPath_def plain_json)
qed

lemma path_containment_example:
  "''/app'' = CHR ''/'' # ''app'' \<and> ''../../etc/passwd'' \<noteq> []
   \<and> \<not> prefix (DATA_DIR ''/app'') (path_join (DATA_DIR ''/app'') ''../../etc/passwd'')
   \<and> getReviewsFromFile ''/app'' demo_store (Some ''../../etc/passwd'') = security_warning
   \<and> getReviewsFromFile ''/app'' demo_store (Some ''two.json'')
       = getReviewsFromFile ''/app'' (demo_store\<lparr>files := files outside_store @ files demo_store\<rparr>)
           (Some ''two.json'')
   \<and> CHR ''/'' \<notin> set ''acme123''
   \<and> getClientDataPath ''/app'' ''acme123'' = DATA_DIR ''/app'' @ ''/'' @ ''acme123'' @ ''.json''"
proof -
  have a: "''/app'' = CHR ''/'' # ''app''" "''../../etc/passwd'' \<noteq> []"
    "CHR ''/'' \<notin> set ''acme123''" by simp_all
  have b: "\<not> prefix (DATA_DIR ''/app'') (path_join (DATA_DIR ''/app'') ''../../etc/passwd'')"
    by (simp add: app_data_dir etc_path)
  have e: "\<forall>p. prefix (DATA_DIR ''/app'') p \<longrightarrow>
          map_of (files demo_store) p
          = map_of (files (demo_store\<lparr>files := files outside_store @ files demo_store\<rparr>)) p"
    by (auto simp: app_data_dir outside_store_def)
  show ?thesis
    using a b e
      path_containment [where dn = "''/app''" and rest = "''app''" and f = "''../../etc/passwd''"
        and s = demo_store and s' = "demo_store\<lparr>files := files outside_store @ files demo_store\<rparr>"
        and seed = "Some ''two.json''" and c = "''acme123''"]
    by blast
qed

lemma package_path: "path_join ''/app/data'' ''../package.json'' = ''/app/package.json''"
  by (simp add: path_join_def path_normalize_def)

text \<open>
  Claim C1. The path made from a seed-file name or a client identifier is claimed to
  stay inside the data directory, every name that would leave it being rejected. For the
  seed name \<^verbatim>\<open>../package.json\<close> this is so: \<open>getReviewsFromFile\<close> answers with the
  security warning. The client identifier \<^verbatim>\<open>../package\<close> resolves to the same file
  outside the data directory, nothing rejects it, and \<open>getClientData\<close> reads the file.
\<close>

theorem client_path_escapes:
  "getReviewsFromFile ''/app'' outside_store (Some ''../package.json'') = security_warning
   \<and> getClientDataPath ''/app'' ''../package'' = ''/app/package.json''
   \<and> \<not> prefix (DATA_DIR ''/app'') (getClientDataPath ''/app'' ''../package'')
   \<and> getClientData ''/app'' outside_store ''../package'' = JObj [(''name'', JStr ''server'')]"
  by (simp add: getReviewsFromFile_def security_warning_def package_path escape_path app_data_dir
        getClientData_def pathExists_def readJson_def outside_store_def)

subsection \<open>Updating a client that does not exist\<close>

text \<open>
  Claim C2. For an identifier without a document the other handlers answer 404, and
  \<open>updateClient\<close> is claimed to answer the same. In the example installation
  \<open>updateClient\<close> asks for the status 4404, which cannot be sent: the handler throws
  and no reply, in particular no 404, is sent, where \<open>addReview\<close> answers 404. Neither
  writes.
\<close>

theorem updateClient_missing_status:
  "updateClient ''/app'' demo_store ''ghost'' update_body
     = (status_json 4404 (message ''Client not found.''), demo_store)
   \<and> status_json 4404 (message ''Client not found.'') = Thrown
   \<and> updateClient ''/app'' demo_store ''ghost'' update_body = (Thrown, demo_store)
   \<and> addReview ''/app'' demo_store ''ghost'' ''Great service!!!''
     = (Reply 404 (message ''Client not found.''), demo_store)"
  by (simp add: updateClient_def addReview_def demo_ghost status_json_def)

subsection \<open>Loading the seed reviews\<close>

lemma default_reviews_cases:
  "nonempty_strings (default_reviews dn s)
   \<or> (\<exists>dd v. map_of (files s) (SAMPLE_REVIEWS_FILE dn) = Some (Parsed dd)
          \<and> jprop dd ''reviews'' = Some v \<and> truthy v \<and> default_reviews dn s = v)"
  by (auto simp: default_reviews_def readJson_def hard_fallback_def nonempty_strings_def
           split: option.splits entry.splits)

lemma getReviewsFromFile_cases:
  "nonempty_strings (getReviewsFromFile dn s seed)
   \<or> (\<exists>d xs. map_of (files s) (path_join (DATA_DIR dn) (seed_name seed)) = Some (Parsed d)
          \<and> jprop d ''reviews'' = Some (JArr xs) \<and> getReviewsFromFile dn s seed = JArr xs)
   \<or> (\<exists>dd v. map_of (files s) (SAMPLE_REVIEWS_FILE dn) = Some (Parsed dd)
          \<and> jprop dd ''reviews'' = Some v \<and> truthy v \<and> getReviewsFromFile dn s seed = v)"
proof -
  let ?p = "path_join (DATA_DIR dn) (seed_name seed)"
  have w: "nonempty_strings security_warning" "nonempty_strings hard_fallback"
    by (simp_all add: security_warning_def hard_fallback_def nonempty_strings_def)
  have g: "getReviewsFromFile dn s seed =
           (if \<not> prefix (DATA_DIR dn) ?p then security_warning
            else if pathExists s ?p then
              (case readJson s ?p of
                 None \<Rightarrow> hard_fallback
               | Some data \<Rightarrow>
                   if data = JNull then hard_fallback
                   else (case jprop data ''reviews'' of
                           Some (JArr xs) \<Rightarrow> JArr xs
                         | _ \<Rightarrow> default_reviews dn s))
            else default_reviews dn s)"
    by (simp add: getReviewsFromFile_def seed_name_def Let_def)
  note d = default_reviews_cases [of dn s]
  show ?thesis
  proof (cases "prefix (DATA_DIR dn) ?p")
    case False
    with g w show ?thesis by simp
  next
    case True
    show ?thesis
    proof (cases "map_of (files s) ?p")
      case None
      with True g have "getReviewsFromFile dn s seed = default_reviews dn s"
        by (simp add: pathExists_def)
      with d show ?thesis by auto
    next
      case (Some e)
      show ?thesis
      proof (cases e)
        case Unreadable
        with Some True g w show ?thesis by (simp add: pathExists_def readJson_def)
      next
        case (Parsed data)
        show ?thesis
        proof (cases "\<exists>xs. jprop data ''reviews'' = Some (JArr xs)")
          case True
          then obtain xs where xs: "jprop data ''reviews'' = Some (JArr xs)" by blast
          then have "data \<noteq> JNull" by auto
          with xs Some Parsed \<open>prefix (DATA_DIR dn) ?p\<close> g
          have "getReviewsFromFile dn s seed = JArr xs"
            by (simp add: pathExists_def readJson_def)
          with xs Some Parsed show ?thesis by blast
        next
          case False
          with Some Parsed \<open>prefix (DATA_DIR dn) ?p\<close> g
          have "getReviewsFromFile dn s seed = hard_fallback
                \<or> getReviewsFromFile dn s seed = default_reviews dn s"
            by (auto simp: pathExists_def readJson_def split: option.splits json.splits)
          with d w show ?thesis by auto
        qed
      qed
    qed
  qed
qed

text \<open>
  Claim C3, as amended. \<open>getReviewsFromFile\<close> is total: every exception of its body is
  caught. A missing or empty name stands for the default sample's name. A name whose path
  fails the containment test yields the security warning. Otherwise, a named file that
  parses with a \<^verbatim>\<open>reviews\<close> array yields that array as it is; a named file that does
  not exist, or parses to a value other than \<^verbatim>\<open>null\<close> without a \<^verbatim>\<open>reviews\<close>
  array, yields the default: the sample's \<^verbatim>\<open>reviews\<close> when truthy, the one-element
  list when the sample parses to a value other than \<^verbatim>\<open>null\<close> without truthy
  \<^verbatim>\<open>reviews\<close>, the two-element list when the sample is missing, unreadable or
  \<^verbatim>\<open>null\<close>. The result is a non-empty array of strings, except where it is the
  \<^verbatim>\<open>reviews\<close> array of the named file or the truthy \<^verbatim>\<open>reviews\<close> of the default
  sample, which are returned as they are.
\<close>

theorem getReviewsFromFile_chain:
  "getReviewsFromFile dn s None = getReviewsFromFile dn s (Some ''sample-reviews-200.json'')
   \<and> getReviewsFromFile dn s (Some []) = getReviewsFromFile dn s (Some ''sample-reviews-200.json'')
   \<and> (f \<noteq> [] \<and> \<not> prefix (DATA_DIR dn) (path_join (DATA_DIR dn) f) \<longrightarrow>
        getReviewsFromFile dn s (Some f) = security_warning)
   \<and> (f \<noteq> [] \<and> prefix (DATA_DIR dn) (path_join (DATA_DIR dn) f) \<longrightarrow>
        (map_of (files s) (path_join (DATA_DIR dn) f) = Some (Parsed d)
           \<and> jprop d ''reviews'' = Some (JArr xs) \<longrightarrow>
         getReviewsFromFile dn s (Some f) = JArr xs)
        \<and> (map_of (files s) (path_join (DATA_DIR dn) f) = None \<longrightarrow>
             getReviewsFromFile dn s (Some f) = default_reviews dn s)
        \<and> (map_of (files s) (path_join (DATA_DIR dn) f) = Some (Parsed d) \<and> d \<noteq> JNull
             \<and> (\<forall>ys. jprop d ''reviews'' \<noteq> Some (JArr ys)) \<longrightarrow>
             getReviewsFromFile dn s (Some f) = default_reviews dn s))
   \<and> (map_of (files s) (SAMPLE_REVIEWS_FILE dn) = Some (Parsed dd)
        \<and> jprop dd ''reviews'' = Some v \<and> truthy v \<longrightarrow>
        default_reviews dn s = v)
   \<and> (map_of (files s) (SAMPLE_REVIEWS_FILE dn) = Some (Parsed dd) \<and> dd \<noteq> JNull
        \<and> \<not> truthy_opt (jprop dd ''reviews'') \<longrightarrow>
        default_reviews dn s = JArr [JStr ''Excellent service!''])
   \<and> (map_of (files s) (SAMPLE_REVIEWS_FILE dn) = None
        \<or> map_of (files s) (SAMPLE_REVIEWS_FILE dn) = Some Unreadable
        \<or> map_of (files s) (SAMPLE_REVIEWS_FILE dn) = Some (Parsed JNull) \<longrightarrow>
        default_reviews dn s = hard_fallback)
   \<and> (nonempty_strings (getReviewsFromFile dn s seed)
        \<or> (\<exists>d xs. map_of (files s) (path_join (DATA_DIR dn) (seed_name seed)) = Some (Parsed d)
               \<and> jprop d ''reviews'' = Some (JArr xs) \<and> getReviewsFromFile dn s seed = JArr xs)
        \<or> (\<exists>dd v. map_of (files s) (SAMPLE_REVIEWS_FILE dn) = Some (Parsed dd)
               \<and> jprop dd ''reviews'' = Some v \<and> truthy v
               \<and> getReviewsFromFile dn s seed = v))"
proof (intro conjI impI)
  show "getReviewsFromFile dn s None = getReviewsFromFile dn s (Some ''sample-reviews-200.json'')"
    by (simp add: getReviewsFromFile_def)
  show "getReviewsFromFile dn s (Some []) = getReviewsFromFile dn s (Some ''sample-reviews-200.json'')"
    by (simp add: getReviewsFromFile_def)
next
  assume "f \<noteq> [] \<and> \<not> prefix (DATA_DIR dn) (path_join (DATA_DIR dn) f)"
  then show "getReviewsFromFile dn s (Some f) = security_warning"
    by (simp add: getReviewsFromFile_def)
next
  assume "f \<noteq> [] \<and> prefix (DATA_DIR dn) (path_join (DATA_DIR dn) f)"
    and "map_of (files s) (path_join (DATA_DIR dn) f) = Some (Parsed d)
           \<and> jprop d ''reviews'' = Some (JArr xs)"
  then show "getReviewsFromFile dn s (Some f) = JArr xs"
    by (auto simp: getReviewsFromFile_def pathExists_def readJson_def)
next
  assume "f \<noteq> [] \<and> prefix (DATA_DIR dn) (path_join (DATA_DIR dn) f)"
    and "map_of (files s) (path_join (DATA_DIR dn) f) = None"
  then show "getReviewsFromFile dn s (Some f) = default_reviews dn s"
    by (simp add: getReviewsFromFile_def pathExists_def)
next
  assume "f \<noteq> [] \<and> prefix (DATA_DIR dn) (path_join (DATA_DIR dn) f)"
    and "map_of (files s) (path_join (DATA_DIR dn) f) = Some (Parsed d) \<and> d \<noteq> JNull
             \<and> (\<forall>ys. jprop d ''reviews'' \<noteq> Some (JArr ys))"
  then show "getReviewsFromFile dn s (Some f) = default_reviews dn s"
    by (auto simp: getReviewsFromFile_def pathExists_def readJson_def
             split: option.splits json.splits)
next
  assume "map_of (files s) (SAMPLE_REVIEWS_FILE dn) = Some (Parsed dd)
        \<and> jprop dd ''reviews'' = Some v \<and> truthy v"
  then show "default_reviews dn s = v"
    by (auto simp: default_reviews_def readJson_def)
next
  assume "map_of (files s) (SAMPLE_REVIEWS_FILE dn) = Some (Parsed dd) \<and> dd \<noteq> JNull
        \<and> \<not> truthy_opt (jprop dd ''reviews'')"
  then show "default_reviews dn s = JArr [JStr ''Excellent service!'']"
    by (auto simp: default_reviews_def readJson_def split: option.splits)
next
  assume "map_of (files s) (SAMPLE_REVIEWS_FILE dn) = None
        \<or> map_of (files s) (SAMPLE_REVIEWS_FILE dn) = Some Unreadable
        \<or> map_of (files s) (SAMPLE_REVIEWS_FILE dn) = Some (Parsed JNull)"
  then show "default_reviews dn s = hard_fallback"
    by (auto simp: default_reviews_def readJson_def)
next
  show "nonempty_strings (getReviewsFromFile dn s seed)
        \<or> (\<exists>d xs. map_of (files s) (path_join (DATA_DIR dn) (seed_name seed)) = Some (Parsed d)
               \<and> jprop d ''reviews'' = Some (JArr xs) \<and> getReviewsFromFile dn s seed = JArr xs)
        \<or> (\<exists>dd v. map_of (files s) (SAMPLE_REVIEWS_FILE dn) = Some (Parsed dd)
               \<and> jprop dd ''reviews'' = Some v \<and> truthy v
               \<and> getReviewsFromFile dn s seed = v)"
    by (rule getReviewsFromFile_cases)
qed

theorem getReviewsFromFile_chain_witness:
  "getReviewsFromFile ''/app'' demo_store None
     = getReviewsFromFile ''/app'' demo_store (Some ''sample-reviews-200.json'')
   \<and> getReviewsFromFile ''/app'' demo_store (Some ''../../etc/passwd'') = security_warning
   \<and> getReviewsFromFile ''/app'' demo_store (Some ''two.json'') = JArr [JStr ''Good'', JStr ''Bad'']
   \<and> getReviewsFromFile ''/app'' demo_store (Some ''missing.json'') = hard_fallback
   \<and> getReviewsFromFile ''/app'' seeded_store (Some ''notes.json'') = JArr [JStr ''Nice'']
   \<and> getReviewsFromFile ''/app'' bare_sample_store (Some ''missing.json'') = JArr [JStr ''Excellent service!'']
   \<and> getReviewsFromFile ''/app'' null_sample_store (Some ''missing.json'') = hard_fallback"
proof -
  note th = getReviewsFromFile_chain [where dn = "''/app''"]
  have p1: "\<not> prefix (DATA_DIR ''/app'') (path_join (DATA_DIR ''/app'') ''../../etc/passwd'')"
    by (simp add: app_data_dir etc_path)
  have j: "path_join (DATA_DIR ''/app'') ''two.json'' = ''/app/data/two.json''"
    "path_join (DATA_DIR ''/app'') ''missing.json'' = ''/app/data/missing.json''"
    "path_join (DATA_DIR ''/app'') ''notes.json'' = ''/app/data/notes.json''"
    by (simp_all add: app_data_dir app_join plain_def)
  have c1: "getReviewsFromFile ''/app'' demo_store None
     = getReviewsFromFile ''/app'' demo_store (Some ''sample-reviews-200.json'')"
    using th [where s = demo_store] by blast
  have c2: "getReviewsFromFile ''/app'' demo_store (Some ''../../etc/passwd'') = security_warning"
    using th [where s = demo_store and f = "''../../etc/passwd''"] p1 by blast
  have "map_of (files demo_store) (path_join (DATA_DIR ''/app'') ''two.json'')
          = Some (Parsed (JObj [(''reviews'', JArr [JStr ''Good'', JStr ''Bad''])]))
        \<and> jprop (JObj [(''reviews'', JArr [JStr ''Good'', JStr ''Bad''])]) ''reviews''
          = Some (JArr [JStr ''Good'', JStr ''Bad''])
        \<and> ''two.json'' \<noteq> [] \<and> prefix (DATA_DIR ''/app'') (path_join (DATA_DIR ''/app'') ''two.json'')"
    by (simp add: j) (simp add: app_data_dir demo_store_def)
  then have c3: "getReviewsFromFile ''/app'' demo_store (Some ''two.json'') = JArr [JStr ''Good'', JStr ''Bad'']"
    using th [where s = demo_store and f = "''two.json''"
                and d = "JObj [(''reviews'', JArr [JStr ''Good'', JStr ''Bad''])]"
                and xs = "[JStr ''Good'', JStr ''Bad'']"] by blast
  have "''missing.json'' \<noteq> [] \<and> prefix (DATA_DIR ''/app'') (path_join (DATA_DIR ''/app'') ''missing.json'')
        \<and> map_of (files demo_store) (path_join (DATA_DIR ''/app'') ''missing.json'') = None
        \<and> map_of (files demo_store) (SAMPLE_REVIEWS_FILE ''/app'') = None"
    by (simp add: j app_sample) (simp add: app_data_dir demo_store_def)
  then have c4: "getReviewsFromFile ''/app'' demo_store (Some ''missing.json'') = hard_fallback"
    using th [where s = demo_store and f = "''missing.json''"] by metis
  have "''notes.json'' \<noteq> [] \<and> prefix (DATA_DIR ''/app'') (path_join (DATA_DIR ''/app'') ''notes.json'')
        \<and> map_of (files seeded_store) (path_join (DATA_DIR ''/app'') ''notes.json'')
           = Some (Parsed (JObj [(''reviews'', JStr ''none'')]))
        \<and> JObj [(''reviews'', JStr ''none'')] \<noteq> JNull
        \<and> (\<forall>ys. jprop (JObj [(''reviews'', JStr ''none'')]) ''reviews'' \<noteq> Some (JArr ys))
        \<and> map_of (files seeded_store) (SAMPLE_REVIEWS_FILE ''/app'')
           = Some (Parsed (JObj [(''reviews'', JArr [JStr ''Nice''])]))
        \<and> jprop (JObj [(''reviews'', JArr [JStr ''Nice''])]) ''reviews'' = Some (JArr [JStr ''Nice''])
        \<and> truthy (JArr [JStr ''Nice''])"
    by (simp add: j app_sample) (simp add: app_data_dir seeded_store_def)
  then have c5: "getReviewsFromFile ''/app'' seeded_store (Some ''notes.json'') = JArr [JStr ''Nice'']"
    using th [where s = seeded_store and f = "''notes.json''"
                and d = "JObj [(''reviews'', JStr ''none'')]"
                and dd = "JObj [(''reviews'', JArr [JStr ''Nice''])]" and v = "JArr [JStr ''Nice'']"]
    by metis
  have "''missing.json'' \<noteq> [] \<and> prefix (DATA_DIR ''/app'') (path_join (DATA_DIR ''/app'') ''missing.json'')
        \<and> map_of (files bare_sample_store) (path_join (DATA_DIR ''/app'') ''missing.json'') = None
        \<and> map_of (files bare_sample_store) (SAMPLE_REVIEWS_FILE ''/app'') = Some (Parsed (JObj []))
        \<and> JObj [] \<noteq> JNull \<and> \<not> truthy_opt (jprop (JObj []) ''reviews'')"
    by (simp add: j app_sample) (simp add: app_data_dir bare_sample_store_def)
  then have c6: "getReviewsFromFile ''/app'' bare_sample_store (Some ''missing.json'')
                 = JArr [JStr ''Excellent service!'']"
    using th [where s = bare_sample_store and f = "''missing.json''" and dd = "JObj []"] by metis
  have "''missing.json'' \<noteq> [] \<and> prefix (DATA_DIR ''/app'') (path_join (DATA_DIR ''/app'') ''missing.json'')
        \<and> map_of (files null_sample_store) (path_join (DATA_DIR ''/app'') ''missing.json'') = None
        \<and> map_of (files null_sample_store) (SAMPLE_REVIEWS_FILE ''/app'') = Some (Parsed JNull)"
    by (simp add: j app_sample) (simp add: app_data_dir null_sample_store_def)
  then have c7: "getReviewsFromFile ''/app'' null_sample_store (Some ''missing.json'') = hard_fallback"
    using th [where s = null_sample_store and f = "''missing.json''"] by metis
  from c1 c2 c3 c4 c5 c6 c7 show ?thesis by blast
qed

text \<open>
  The claim as stated does not hold: a seed file whose \<^verbatim>\<open>reviews\<close> is the empty
  array makes the result empty.
\<close>

theorem empty_seed_counterexample:
  "getReviewsFromFile ''/app'' empty_seed_store (Some ''empty.json'') = JArr []"
  by (simp add: getReviewsFromFile_def app_data_dir app_join plain_def pathExists_def
        readJson_def empty_seed_store_def)

subsection \<open>Creating a client\<close>

text \<open>
  Claim C4. If a file already exists at the path of the identifier, \<open>createClient\<close>
  answers 409 (Conflict) and leaves the disk as it was. Otherwise, when the write goes
  through, it answers 201 with a document whose \<^verbatim>\<open>reviews\<close> is exactly what
  \<open>getReviewsFromFile\<close> returned and whose \<^verbatim>\<open>clientId\<close> is the identifier, whatever
  the details contain; that document is appended to the disk and is what
  \<open>getClientData\<close> reads back.
\<close>

theorem createClient_spec:
  "(pathExists s (getClientDataPath dn c) \<longrightarrow>
      createClient dn s c seed details = (Reply 409 (message ''Client ID already exists.''), s))
   \<and> (\<not> pathExists s (getClientDataPath dn c) \<and> getClientDataPath dn c \<notin> write_fails s \<longrightarrow>
        (\<exists>doc s'. createClient dn s c seed details = (Reply 201 doc, s')
           \<and> jprop doc ''reviews'' = Some (getReviewsFromFile dn s seed)
           \<and> jprop doc ''clientId'' = Some (JStr c)
           \<and> getClientData dn s' c = doc
           \<and> files s' = files s @ [(getClientDataPath dn c, Parsed doc)]))"
proof (intro conjI impI)
  assume "pathExists s (getClientDataPath dn c)"
  then show "createClient dn s c seed details = (Reply 409 (message ''Client ID already exists.''), s)"
    by (simp add: createClient_def)
next
  assume a: "\<not> pathExists s (getClientDataPath dn c) \<and> getClientDataPath dn c \<notin> write_fails s"
  let ?p = "getClientDataPath dn c"
  let ?doc = "JObj (obj_assign details
                [(''clientId'', JStr c), (''reviews'', getReviewsFromFile dn s seed)])"
  let ?s' = "s\<lparr>files := put_file ?p (Parsed ?doc) (files s)\<rparr>"
  from a have none: "map_of (files s) ?p = None" by (simp add: pathExists_def)
  from a have "createClient dn s c seed details = (Reply 201 ?doc, ?s')"
    by (simp add: createClient_def writeClientData_ok Let_def)
  moreover have "jprop ?doc ''reviews'' = Some (getReviewsFromFile dn s seed)"
    by (simp add: map_of_obj_assign)
  moreover have "jprop ?doc ''clientId'' = Some (JStr c)"
    by (simp add: map_of_obj_assign)
  moreover have "getClientData dn ?s' c = ?doc" by (rule getClientData_written)
  moreover have "files ?s' = files s @ [(?p, Parsed ?doc)]"
    using none by (simp add: put_file_new)
  ultimately show "\<exists>doc s'. createClient dn s c seed details = (Reply 201 doc, s')
           \<and> jprop doc ''reviews'' = Some (getReviewsFromFile dn s seed)
           \<and> jprop doc ''clientId'' = Some (JStr c)
           \<and> getClientData dn s' c = doc
           \<and> files s' = files s @ [(getClientDataPath dn c, Parsed doc)]"
    by blast
qed

theorem createClient_spec_witness:
  "pathExists demo_store (getClientDataPath ''/app'' ''acme123'')
   \<and> createClient ''/app'' demo_store ''acme123'' (Some ''two.json'') update_body
       = (Reply 409 (message ''Client ID already exists.''), demo_store)
   \<and> \<not> pathExists demo_store (getClientDataPath ''/app'' ''newco'')
   \<and> getClientDataPath ''/app'' ''newco'' \<notin> write_fails demo_store
   \<and> (\<exists>doc s'. createClient ''/app'' demo_store ''newco'' (Some ''two.json'')
                    ((''clientId'', JStr ''other'') # update_body) = (Reply 201 doc, s')
          \<and> jprop doc ''reviews'' = Some (JArr [JStr ''Good'', JStr ''Bad''])
          \<and> jprop doc ''clientId'' = Some (JStr ''newco'')
          \<and> getClientData ''/app'' s' ''newco'' = doc)"
proof -
  have e: "pathExists demo_store (getClientDataPath ''/app'' ''acme123'')"
    by (simp add: pathExists_def demo_acme_file)
  have n: "\<not> pathExists demo_store (getClientDataPath ''/app'' ''newco'')
           \<and> getClientDataPath ''/app'' ''newco'' \<notin> write_fails demo_store"
    by (simp add: pathExists_def app_path demo_store_def)
  show ?thesis
    using e n
      createClient_spec [where s = demo_store and dn = "''/app''" and c = "''acme123''"
        and seed = "Some ''two.json''" and details = update_body]
      createClient_spec [where s = demo_store and dn = "''/app''" and c = "''newco''"
        and seed = "Some ''two.json''" and details = "(''clientId'', JStr ''other'') # update_body"]
    by (simp only: demo_seed) blast
qed

subsection \<open>Adding a review\<close>

text \<open>
  Claim C5. For an identifier without a document \<open>addReview\<close> answers 404. For a client
  whose document is a JSON object with the review list \<open>xs\<close>, when the write goes
  through, it answers 201 with the text, and \<open>listReviews\<close> afterwards yields the text
  followed by \<open>xs\<close>: the text is first, the earlier reviews follow in their order, and
  the list is one longer.
\<close>

theorem addReview_spec:
  "(\<not> truthy (getClientData dn s c) \<longrightarrow>
      addReview dn s c review = (Reply 404 (message ''Client not found.''), s))
   \<and> (map_of (files s) (getClientDataPath dn c) = Some (Parsed (JObj kvs))
        \<and> listReviews dn s c = Reply 200 (JObj [(''reviews'', JArr xs)])
        \<and> getClientDataPath dn c \<notin> write_fails s \<longrightarrow>
        (\<exists>s'. addReview dn s c review = (Reply 201 (JObj [(''review'', JStr review)]), s')
           \<and> listReviews dn s' c = Reply 200 (JObj [(''reviews'', JArr (JStr review # xs))])))"
proof (intro conjI impI)
  assume "\<not> truthy (getClientData dn s c)"
  then show "addReview dn s c review = (Reply 404 (message ''Client not found.''), s)"
    by (simp add: addReview_def)
next
  assume a: "map_of (files s) (getClientDataPath dn c) = Some (Parsed (JObj kvs))
        \<and> listReviews dn s c = Reply 200 (JObj [(''reviews'', JArr xs)])
        \<and> getClientDataPath dn c \<notin> write_fails s"
  let ?d' = "jset (JObj kvs) ''reviews'' (JArr (JStr review # xs))"
  let ?s' = "s\<lparr>files := put_file (getClientDataPath dn c) (Parsed ?d') (files s)\<rparr>"
  from a have d: "getClientData dn s c = JObj kvs" by (simp add: getClientData_Parsed)
  from a have r: "reviews_or_empty (JObj kvs) = JArr xs"
    using listReviews_Reply [of dn s c "JArr xs"] d by simp
  from a have "addReview dn s c review = (Reply 201 (JObj [(''review'', JStr review)]), ?s')"
    by (simp add: addReview_def d r writeClientData_ok Let_def del: jset.simps)
  moreover have "listReviews dn ?s' c = Reply 200 (JObj [(''reviews'', JArr (JStr review # xs))])"
    using listReviews_written [where dn = dn and s = s and c = c
                                  and kvs = "obj_assign kvs [(''reviews'', JArr (JStr review # xs))]"]
    by (simp add: reviews_or_empty_def map_of_obj_assign)
  ultimately show "\<exists>s'. addReview dn s c review = (Reply 201 (JObj [(''review'', JStr review)]), s')
           \<and> listReviews dn s' c = Reply 200 (JObj [(''reviews'', JArr (JStr review # xs))])"
    by blast
qed

theorem addReview_spec_witness:
  "\<not> truthy (getClientData ''/app'' demo_store ''ghost'')
   \<and> addReview ''/app'' demo_store ''ghost'' ''Great service!!!''
       = (Reply 404 (message ''Client not found.''), demo_store)
   \<and> listReviews ''/app'' demo_store ''acme123''
       = Reply 200 (JObj [(''reviews'', JArr [JStr ''A'', JStr ''B''])])
   \<and> getClientDataPath ''/app'' ''acme123'' \<notin> write_fails demo_store
   \<and> (\<exists>s'. addReview ''/app'' demo_store ''acme123'' ''Great service!!!''
              = (Reply 201 (JObj [(''review'', JStr ''Great service!!!'')]), s')
          \<and> listReviews ''/app'' s' ''acme123''
              = Reply 200 (JObj [(''reviews'', JArr [JStr ''Great service!!!'', JStr ''A'', JStr ''B''])]))"
proof -
  have g: "\<not> truthy (getClientData ''/app'' demo_store ''ghost'')"
    by (simp add: demo_ghost)
  have f: "map_of (files demo_store) (getClientDataPath ''/app'' ''acme123'')
           = Some (Parsed (JObj [(''clientId'', JStr ''acme123''), (''clientName'', JStr ''Acme''),
                    (''reviews'', JArr [JStr ''A'', JStr ''B''])]))"
    using demo_acme_file by (simp add: acme_doc_def)
  have w: "getClientDataPath ''/app'' ''acme123'' \<notin> write_fails demo_store"
    by (simp add: demo_store_def)
  show ?thesis
    using g f w demo_acme_reviews
      addReview_spec [where s = demo_store and dn = "''/app''" and c = "''ghost''"
        and review = "''Great service!!!''"]
      addReview_spec [where s = demo_store and dn = "''/app''" and c = "''acme123''"
        and review = "''Great service!!!''" and xs = "[JStr ''A'', JStr ''B'']"
        and kvs = "[(''clientId'', JStr ''acme123''), (''clientName'', JStr ''Acme''),
                    (''reviews'', JArr [JStr ''A'', JStr ''B''])]"]
    by blast
qed

subsection \<open>Deleting a review\<close>

text \<open>
  Claim C6, as amended. An empty text is answered with 400 before the client is looked
  at. For a non-empty text, \<open>deleteReview\<close> answers 404 when the identifier has no
  document and 404 when the text is not in the review list, both without writing. When
  the text is in the list and the write goes through, it answers 200, and the list
  afterwards is the old one without the first occurrence of the text: the element at the
  first index \<open>i\<close> that holds the text is removed, all others keep their order.
\<close>

theorem deleteReview_spec:
  "(review = [] \<longrightarrow>
      deleteReview dn s c review = (Reply 400 (message ''Review text is required.''), s))
   \<and> (review \<noteq> [] \<and> \<not> truthy (getClientData dn s c) \<longrightarrow>
        deleteReview dn s c review = (Reply 404 (message ''Client not found.''), s))
   \<and> (review \<noteq> [] \<and> listReviews dn s c = Reply 200 (JObj [(''reviews'', JArr xs)])
        \<and> JStr review \<notin> set xs \<longrightarrow>
        deleteReview dn s c review = (Reply 404 (message ''Review not found.''), s))
   \<and> (review \<noteq> [] \<and> listReviews dn s c = Reply 200 (JObj [(''reviews'', JArr xs)])
        \<and> JStr review \<in> set xs \<and> getClientDataPath dn c \<notin> write_fails s \<longrightarrow>
        (\<exists>s' i. deleteReview dn s c review = (Reply 200 (message ''Review deleted.''), s')
           \<and> listReviews dn s' c = Reply 200 (JObj [(''reviews'', JArr (remove1 (JStr review) xs))])
           \<and> i < length xs \<and> xs ! i = JStr review \<and> JStr review \<notin> set (take i xs)
           \<and> remove1 (JStr review) xs = take i xs @ drop (Suc i) xs))"
proof (intro conjI impI)
  assume "review = []"
  then show "deleteReview dn s c review = (Reply 400 (message ''Review text is required.''), s)"
    by (simp add: deleteReview_def)
next
  assume "review \<noteq> [] \<and> \<not> truthy (getClientData dn s c)"
  then show "deleteReview dn s c review = (Reply 404 (message ''Client not found.''), s)"
    by (simp add: deleteReview_def)
next
  assume a: "review \<noteq> [] \<and> listReviews dn s c = Reply 200 (JObj [(''reviews'', JArr xs)])
        \<and> JStr review \<notin> set xs"
  then have "truthy (getClientData dn s c) \<and> reviews_or_empty (getClientData dn s c) = JArr xs"
    using listReviews_Reply by blast
  with a show "deleteReview dn s c review = (Reply 404 (message ''Review not found.''), s)"
    by (simp add: deleteReview_def index_of_None [THEN iffD2])
next
  assume a: "review \<noteq> [] \<and> listReviews dn s c = Reply 200 (JObj [(''reviews'', JArr xs)])
        \<and> JStr review \<in> set xs \<and> getClientDataPath dn c \<notin> write_fails s"
  then have t: "truthy (getClientData dn s c)"
    and r: "reviews_or_empty (getClientData dn s c) = JArr xs"
    using listReviews_Reply by blast+
  from a have "xs \<noteq> []" by auto
  with r obtain kvs where d: "getClientData dn s c = JObj kvs"
    using reviews_JArr_obj by blast
  from a obtain i where i: "index_of (JStr review) xs = Some i"
    using index_of_None [of review xs] by auto
  note fi = index_of_Some [OF i]
  let ?d' = "jset (JObj kvs) ''reviews'' (JArr (splice1 i xs))"
  let ?s' = "s\<lparr>files := put_file (getClientDataPath dn c) (Parsed ?d') (files s)\<rparr>"
  from a r have "deleteReview dn s c review = (Reply 200 (message ''Review deleted.''), ?s')"
    by (simp add: deleteReview_def d i writeClientData_ok Let_def del: jset.simps)
  moreover have "listReviews dn ?s' c
                 = Reply 200 (JObj [(''reviews'', JArr (remove1 (JStr review) xs))])"
    using listReviews_written [where dn = dn and s = s and c = c
                                  and kvs = "obj_assign kvs [(''reviews'', JArr (splice1 i xs))]"] fi
    by (simp add: reviews_or_empty_def map_of_obj_assign)
  moreover have "remove1 (JStr review) xs = take i xs @ drop (Suc i) xs"
    using fi by (simp add: splice1_def)
  ultimately show "\<exists>s' i. deleteReview dn s c review = (Reply 200 (message ''Review deleted.''), s')
           \<and> listReviews dn s' c = Reply 200 (JObj [(''reviews'', JArr (remove1 (JStr review) xs))])
           \<and> i < length xs \<and> xs ! i = JStr review \<and> JStr review \<notin> set (take i xs)
           \<and> remove1 (JStr review) xs = take i xs @ drop (Suc i) xs"
    using fi by blast
qed

theorem deleteReview_spec_witness:
  "deleteReview ''/app'' demo_store ''acme123'' [] = (Reply 400 (message ''Review text is required.''), demo_store)
   \<and> ''Good one'' \<noteq> [] \<and> \<not> truthy (getClientData ''/app'' demo_store ''ghost'')
   \<and> deleteReview ''/app'' demo_store ''ghost'' ''Good one'' = (Reply 404 (message ''Client not found.''), demo_store)
   \<and> listReviews ''/app'' demo_store ''acme123'' = Reply 200 (JObj [(''reviews'', JArr [JStr ''A'', JStr ''B''])])
   \<and> JStr ''Good one'' \<notin> set [JStr ''A'', JStr ''B'']
   \<and> deleteReview ''/app'' demo_store ''acme123'' ''Good one'' = (Reply 404 (message ''Review not found.''), demo_store)
   \<and> JStr ''A'' \<in> set [JStr ''A'', JStr ''B'']
   \<and> getClientDataPath ''/app'' ''acme123'' \<notin> write_fails demo_store
   \<and> (\<exists>s'. deleteReview ''/app'' demo_store ''acme123'' ''A'' = (Reply 200 (message ''Review deleted.''), s')
          \<and> listReviews ''/app'' s' ''acme123'' = Reply 200 (JObj [(''reviews'', JArr [JStr ''B''])]))"
proof -
  have g: "\<not> truthy (getClientData ''/app'' demo_store ''ghost'')"
    by (simp add: demo_ghost)
  have w: "getClientDataPath ''/app'' ''acme123'' \<notin> write_fails demo_store"
    by (simp add: demo_store_def)
  have r: "remove1 (JStr ''A'') [JStr ''A'', JStr ''B''] = [JStr ''B'']" by simp
  have n: "''Good one'' \<noteq> []" "''A'' \<noteq> []" "JStr ''Good one'' \<notin> set [JStr ''A'', JStr ''B'']"
    "JStr ''A'' \<in> set [JStr ''A'', JStr ''B'']" by simp_all
  show ?thesis
    using g w n demo_acme_reviews
      deleteReview_spec [where s = demo_store and dn = "''/app''" and c = "''acme123''"
        and review = "[]"]
      deleteReview_spec [where s = demo_store and dn = "''/app''" and c = "''ghost''"
        and review = "''Good one''"]
      deleteReview_spec [where s = demo_store and dn = "''/app''" and c = "''acme123''"
        and review = "''Good one''" and xs = "[JStr ''A'', JStr ''B'']"]
      deleteReview_spec [where s = demo_store and dn = "''/app''" and c = "''acme123''"
        and review = "''A''" and xs = "[JStr ''A'', JStr ''B'']"]
    unfolding r by blast
qed

text \<open>
  The claim as stated does not hold for the empty text: for an identifier without a
  document the answer is 400, not 404.
\<close>

theorem deleteReview_empty_text_counterexample:
  "getClientData ''/app'' demo_store ''ghost'' = JNull
   \<and> deleteReview ''/app'' demo_store ''ghost'' []
       = (Reply 400 (message ''Review text is required.''), demo_store)"
  by (simp add: demo_ghost deleteReview_def)

subsection \<open>Updating a client\<close>

lemma update_body_valid: "clientUpdateSchema (prefix ''https://'') update_body"
  by (simp add: clientUpdateSchema_def update_body_def hex_colour_def is_hex_def)

text \<open>
  Claim C7. For a client with a document and a body that passes \<open>clientUpdateSchema\<close>,
  the \<^verbatim>\<open>reviews\<close> stored for the client after \<open>updateClient\<close> are the ones stored
  before, whether or not the write goes through. When it does, the answer is 200 with the
  merged document, which is what is stored: its \<^verbatim>\<open>reviews\<close> are the old ones, its
  \<^verbatim>\<open>clientId\<close> is the identifier, and every field of the body has the body's value.
\<close>

theorem updateClient_spec:
  "clientUpdateSchema is_uri body \<and> truthy (getClientData dn s c) \<longrightarrow>
     jprop (getClientData dn (snd (updateClient dn s c body)) c) ''reviews''
       = jprop (getClientData dn s c) ''reviews''
     \<and> (getClientDataPath dn c \<notin> write_fails s \<longrightarrow>
          (\<exists>upd s'. updateClient dn s c body = (Reply 200 upd, s')
             \<and> getClientData dn s' c = upd
             \<and> jprop upd ''reviews'' = jprop (getClientData dn s c) ''reviews''
             \<and> jprop upd ''clientId'' = Some (JStr c)
             \<and> (\<forall>k v. map_of body k = Some v \<longrightarrow> jprop upd k = Some v)))"
proof (intro impI)
  assume a: "clientUpdateSchema is_uri body \<and> truthy (getClientData dn s c)"
  let ?data = "getClientData dn s c"
  let ?upd = "JObj (obj_assign (obj_assign (spread_props ?data) body) [(''clientId'', JStr c)])"
  let ?s' = "s\<lparr>files := put_file (getClientDataPath dn c) (Parsed ?upd) (files s)\<rparr>"
  from a have nr: "map_of body ''reviews'' = None" using schema_no_reviews by blast
  have rev: "jprop ?upd ''reviews'' = jprop ?data ''reviews''"
    by (simp add: map_of_obj_assign nr spread_props_reviews)
  have cid: "jprop ?upd ''clientId'' = Some (JStr c)"
    by (simp add: map_of_obj_assign)
  have fields: "\<forall>k v. map_of body k = Some v \<longrightarrow> jprop ?upd k = Some v"
  proof (intro allI impI)
    fix k v assume kv: "map_of body k = Some v"
    from a have "map_of body ''clientId'' = None" using schema_no_clientId by blast
    with kv have "k \<noteq> ''clientId''" by auto
    with kv show "jprop ?upd k = Some v" by (simp add: map_of_obj_assign)
  qed
  have ok: "getClientDataPath dn c \<notin> write_fails s \<Longrightarrow>
            updateClient dn s c body = (Reply 200 ?upd, ?s')"
    using a by (simp add: updateClient_def writeClientData_ok Let_def)
  have frame: "jprop (getClientData dn (snd (updateClient dn s c body)) c) ''reviews''
               = jprop ?data ''reviews''"
  proof (cases "getClientDataPath dn c \<in> write_fails s")
    case True
    with a show ?thesis by (simp add: updateClient_def writeClientData_fail Let_def)
  next
    case False
    from ok [OF False] have "snd (updateClient dn s c body) = ?s'" by simp
    then show ?thesis using rev by (simp only: getClientData_written)
  qed
  have "getClientData dn ?s' c = ?upd" by (rule getClientData_written)
  with ok rev cid fields
  have "getClientDataPath dn c \<notin> write_fails s \<longrightarrow>
          (\<exists>upd s'. updateClient dn s c body = (Reply 200 upd, s')
             \<and> getClientData dn s' c = upd
             \<and> jprop upd ''reviews'' = jprop ?data ''reviews''
             \<and> jprop upd ''clientId'' = Some (JStr c)
             \<and> (\<forall>k v. map_of body k = Some v \<longrightarrow> jprop upd k = Some v))"
    by blast
  with frame show "jprop (getClientData dn (snd (updateClient dn s c body)) c) ''reviews''
       = jprop (getClientData dn s c) ''reviews''
     \<and> (getClientDataPath dn c \<notin> write_fails s \<longrightarrow>
          (\<exists>upd s'. updateClient dn s c body = (Reply 200 upd, s')
             \<and> getClientData dn s' c = upd
             \<and> jprop upd ''reviews'' = jprop (getClientData dn s c) ''reviews''
             \<and> jprop upd ''clientId'' = Some (JStr c)
             \<and> (\<forall>k v. map_of body k = Some v \<longrightarrow> jprop upd k = Some v)))"
    by (rule conjI)
qed

theorem updateClient_spec_witness:
  "clientUpdateSchema (prefix ''https://'') update_body
   \<and> truthy (getClientData ''/app'' demo_store ''acme123'')
   \<and> getClientDataPath ''/app'' ''acme123'' \<notin> write_fails demo_store
   \<and> jprop (getClientData ''/app'' (snd (updateClient ''/app'' demo_store ''acme123'' update_body)) ''acme123'')
        ''reviews'' = Some (JArr [JStr ''A'', JStr ''B''])
   \<and> (\<exists>upd s'. updateClient ''/app'' demo_store ''acme123'' update_body = (Reply 200 upd, s')
          \<and> getClientData ''/app'' s' ''acme123'' = upd
          \<and> jprop upd ''reviews'' = Some (JArr [JStr ''A'', JStr ''B''])
          \<and> jprop upd ''clientId'' = Some (JStr ''acme123'')
          \<and> jprop upd ''clientName'' = Some (JStr ''Acme Ltd''))"
proof -
  have t: "truthy (getClientData ''/app'' demo_store ''acme123'')"
    by (simp add: demo_acme acme_doc_def)
  have w: "getClientDataPath ''/app'' ''acme123'' \<notin> write_fails demo_store"
    by (simp add: demo_store_def)
  have r: "jprop (getClientData ''/app'' demo_store ''acme123'') ''reviews''
           = Some (JArr [JStr ''A'', JStr ''B''])"
    by (simp add: demo_acme acme_doc_def)
  have n: "map_of update_body ''clientName'' = Some (JStr ''Acme Ltd'')"
    by (simp add: update_body_def)
  show ?thesis
    using update_body_valid t w n
      updateClient_spec [where is_uri = "prefix ''https://''" and body = update_body
        and s = demo_store and dn = "''/app''" and c = "''acme123''"]
    unfolding r by blast
qed

subsection \<open>A random review\<close>

lemma ten_reviews:
  "listReviews ''/app'' ten_store ''ten''
   = Reply 200 (JObj [(''reviews'', JArr (map (\<lambda>c. JStr [c]) ''0123456789''))])"
  by (simp add: listReviews_def getClientData_def pathExists_def readJson_def app_path
        ten_store_def reviews_or_empty_def)

text \<open>
  Claim C8. \<open>randomReview\<close> answers 404 when the identifier has no document or its
  review list is empty. On a non-empty review list \<open>xs\<close> (a JavaScript array has fewer
  than \<open>2 ^ 32\<close> elements), for a double \<open>r\<close> in \<open>[0, 1)\<close> as the value of
  \<^verbatim>\<open>Math.random()\<close> and a product \<open>dmul r (length xs)\<close> that is a double nearest to
  the exact product, it answers 200 with the element of \<open>xs\<close> at the index
  \<open>\<lfloor>dmul r (length xs)\<rfloor>\<close>, and this index lies below \<open>length xs\<close>.
\<close>

theorem randomReview_spec:
  "(\<not> truthy (getClientData dn s c) \<or> listReviews dn s c = Reply 200 (JObj [(''reviews'', JArr [])]) \<longrightarrow>
      randomReview dn s c dmul r = Some (Reply 404 (message ''Client not found or has no reviews.'')))
   \<and> (listReviews dn s c = Reply 200 (JObj [(''reviews'', JArr xs)]) \<and> xs \<noteq> []
        \<and> length xs < 2 ^ 32 \<and> is_double r \<and> 0 \<le> r \<and> r < 1
        \<and> nearest_double (dmul r (of_nat (length xs))) (r * of_nat (length xs)) \<longrightarrow>
        (\<exists>i. i < length xs \<and> int i = \<lfloor>dmul r (of_nat (length xs))\<rfloor> \<and> xs ! i \<in> set xs
           \<and> randomReview dn s c dmul r = Some (Reply 200 (JObj [(''review'', xs ! i)]))))"
proof (intro conjI impI)
  assume "\<not> truthy (getClientData dn s c) \<or> listReviews dn s c = Reply 200 (JObj [(''reviews'', JArr [])])"
  then show "randomReview dn s c dmul r = Some (Reply 404 (message ''Client not found or has no reviews.''))"
  proof
    assume "\<not> truthy (getClientData dn s c)"
    then show ?thesis by (simp add: randomReview_def)
  next
    assume "listReviews dn s c = Reply 200 (JObj [(''reviews'', JArr [])])"
    then have "reviews_or_empty (getClientData dn s c) = JArr []"
      using listReviews_Reply by blast
    then show ?thesis
      by (auto simp: randomReview_def reviews_or_empty_def Let_def split: option.splits if_splits)
  qed
next
  assume a: "listReviews dn s c = Reply 200 (JObj [(''reviews'', JArr xs)]) \<and> xs \<noteq> []
        \<and> length xs < 2 ^ 32 \<and> is_double r \<and> 0 \<le> r \<and> r < 1
        \<and> nearest_double (dmul r (of_nat (length xs))) (r * of_nat (length xs))"
  then have t: "truthy (getClientData dn s c)"
    and ro: "reviews_or_empty (getClientData dn s c) = JArr xs"
    using listReviews_Reply by blast+
  from ro a have jp: "jprop (getClientData dn s c) ''reviews'' = Some (JArr xs)"
    by (auto simp: reviews_or_empty_def split: option.splits if_splits)
  from a obtain i where i: "i < length xs" "int i = \<lfloor>dmul r (of_nat (length xs))\<rfloor>"
    "pick dmul r xs = Some (xs ! i)"
    using pick_in_range [of xs r dmul] by blast
  from a t jp i(3)
  have "randomReview dn s c dmul r = Some (Reply 200 (JObj [(''review'', xs ! i)]))"
    by (simp add: randomReview_def review_body_def Let_def)
  with i show "\<exists>i. i < length xs \<and> int i = \<lfloor>dmul r (of_nat (length xs))\<rfloor> \<and> xs ! i \<in> set xs
           \<and> randomReview dn s c dmul r = Some (Reply 200 (JObj [(''review'', xs ! i)]))"
    by auto
qed

theorem randomReview_spec_witness:
  "randomReview ''/app'' demo_store ''ghost'' dmul_example (1 / 2)
       = Some (Reply 404 (message ''Client not found or has no reviews.''))
   \<and> (randomReview ''/app'' demo_store ''acme123'' dmul_example (1 / 2)
          = Some (Reply 200 (JObj [(''review'', JStr ''A'')]))
        \<or> randomReview ''/app'' demo_store ''acme123'' dmul_example (1 / 2)
          = Some (Reply 200 (JObj [(''review'', JStr ''B'')])))
   \<and> \<lfloor>seven_tenths * 10\<rfloor> = 6 \<and> dmul_example seven_tenths 10 = 7
   \<and> randomReview ''/app'' ten_store ''ten'' dmul_example seven_tenths
        = Some (Reply 200 (JObj [(''review'', JStr ''7'')]))"
proof -
  have g: "\<not> truthy (getClientData ''/app'' demo_store ''ghost'')"
    by (simp add: demo_ghost)
  have c1: "randomReview ''/app'' demo_store ''ghost'' dmul_example (1 / 2)
       = Some (Reply 404 (message ''Client not found or has no reviews.''))"
    using g randomReview_spec [where s = demo_store and dn = "''/app''" and c = "''ghost''"
        and dmul = dmul_example and r = "1 / 2"]
    by blast
  have h: "(1 / 2 :: rat) \<noteq> seven_tenths" by (simp add: seven_tenths_def)
  have "dmul_example (1 / 2) (of_nat (length [JStr ''A'', JStr ''B''])) = 1"
    using h by (simp add: dmul_example_def)
  then have n2: "nearest_double (dmul_example (1 / 2) (of_nat (length [JStr ''A'', JStr ''B''])))
                   (1 / 2 * of_nat (length [JStr ''A'', JStr ''B'']))"
    using nearest_exact [OF is_double_1] by simp
  have b: "(0::rat) \<le> 1 / 2" "(1::rat) / 2 < 1" "[JStr ''A'', JStr ''B''] \<noteq> []"
    "length [JStr ''A'', JStr ''B''] < 2 ^ 32" by simp_all
  from randomReview_spec [where s = demo_store and dn = "''/app''" and c = "''acme123''"
        and dmul = dmul_example and r = "1 / 2" and xs = "[JStr ''A'', JStr ''B'']"]
    demo_acme_reviews b is_double_half n2
  obtain i where i: "[JStr ''A'', JStr ''B''] ! i \<in> set [JStr ''A'', JStr ''B'']"
    "randomReview ''/app'' demo_store ''acme123'' dmul_example (1 / 2)
       = Some (Reply 200 (JObj [(''review'', [JStr ''A'', JStr ''B''] ! i)]))"
    by blast
  from i(1) have "[JStr ''A'', JStr ''B''] ! i = JStr ''A'' \<or> [JStr ''A'', JStr ''B''] ! i = JStr ''B''"
    by simp
  with i(2) have c2: "randomReview ''/app'' demo_store ''acme123'' dmul_example (1 / 2)
          = Some (Reply 200 (JObj [(''review'', JStr ''A'')]))
        \<or> randomReview ''/app'' demo_store ''acme123'' dmul_example (1 / 2)
          = Some (Reply 200 (JObj [(''review'', JStr ''B'')]))"
    by metis
  let ?xs = "map (\<lambda>c. JStr [c]) ''0123456789''"
  have len: "length ?xs = 10" by simp
  have p7: "dmul_example seven_tenths (of_nat (length ?xs)) = 7"
    by (simp add: dmul_example_def)
  have n7: "nearest_double (dmul_example seven_tenths (of_nat (length ?xs)))
              (seven_tenths * of_nat (length ?xs))"
    unfolding p7 using nearest_seven by simp
  have r7: "0 \<le> seven_tenths" "seven_tenths < 1" by (simp_all add: seven_tenths_def)
  have ne: "?xs \<noteq> []" "length ?xs < 2 ^ 32" by simp_all
  from randomReview_spec [where s = ten_store and dn = "''/app''" and c = "''ten''"
        and dmul = dmul_example and r = seven_tenths and xs = ?xs]
    ten_reviews ne is_double_seven_tenths r7 n7
  obtain j where j: "int j = \<lfloor>dmul_example seven_tenths (of_nat (length ?xs))\<rfloor>"
    "randomReview ''/app'' ten_store ''ten'' dmul_example seven_tenths
       = Some (Reply 200 (JObj [(''review'', ?xs ! j)]))"
    by blast
  from j(1) have "j = 7" unfolding p7 by simp
  with j(2) have c3: "randomReview ''/app'' ten_store ''ten'' dmul_example seven_tenths
        = Some (Reply 200 (JObj [(''review'', JStr ''7'')]))"
    by simp
  have c4: "\<lfloor>seven_tenths * 10\<rfloor> = 6"
    by (rule floor_unique) (simp_all add: seven_tenths_def)
  have c5: "dmul_example seven_tenths 10 = 7" by (simp add: dmul_example_def)
  from c1 c2 c3 c4 c5 show ?thesis by blast
qed

subsection \<open>Listing the clients\<close>

lemma child_name_Some:
  "child_name dir p = Some f \<Longrightarrow> p = dir @ ''/'' @ f \<and> f \<noteq> [] \<and> CHR ''/'' \<notin> set f"
proof -
  assume a: "child_name dir p = Some f"
  then have pre: "prefix (dir @ ''/'') p"
    and f: "f = drop (length dir + 1) p" "f \<noteq> []" "CHR ''/'' \<notin> set f"
    by (auto simp: child_name_def Let_def split: if_splits)
  from pre obtain r where "p = (dir @ ''/'') @ r" by (auto simp: prefix_def)
  with f show ?thesis by simp
qed

lemma json_name_plain:
  assumes "suffix ''.json'' f" "CHR ''/'' \<notin> set f"
  shows "plain f"
proof -
  from assms(1) obtain b where "f = b @ ''.json''" by (auto simp: suffix_def)
  with assms(2) show ?thesis using plain_json [of b] by simp
qed

lemma summary_of_spec: "summary_of d = spec_summary d"
  by (cases d) (auto simp: summary_of_def spec_summary_def split: option.splits)

lemma summary_of_JNull: "summary_of JNull = None"
  by (simp add: summary_of_def)

lemma client_summary_entry:
  assumes dn: "dn = CHR ''/'' # rest"
    and dist: "distinct (map fst (files s))"
    and mem: "(p, e) \<in> set (files s)"
    and ch: "child_name (DATA_DIR dn) p = Some f"
    and suf: "suffix ''.json'' f"
    and simple: "remove_first ''.json'' f @ ''.json'' = f"
  shows "client_summary dn s f = entry_summary dn (p, e)"
proof -
  from child_name_Some [OF ch] have p: "p = DATA_DIR dn @ ''/'' @ f" and nf: "CHR ''/'' \<notin> set f"
    by simp_all
  have pl: "plain f" using suf nf by (rule json_name_plain)
  have "getClientDataPath dn (remove_first ''.json'' f) = path_join (DATA_DIR dn) f"
    by (simp add: getClientDataPath_def simple)
  also have "\<dots> = p" using path_join_DATA_DIR [OF dn pl] p by simp
  finally have path: "getClientDataPath dn (remove_first ''.json'' f) = p" .
  have look: "map_of (files s) p = Some e" using dist mem by (rule map_of_is_SomeI)
  have "getClientData dn s (remove_first ''.json'' f) = (case e of Parsed d \<Rightarrow> d | Unreadable \<Rightarrow> JNull)"
    by (simp add: getClientData_def path look pathExists_def readJson_def split: entry.splits)
  then have "client_summary dn s f = (case e of Parsed d \<Rightarrow> spec_summary d | Unreadable \<Rightarrow> None)"
    by (simp add: client_summary_def summary_of_JNull summary_of_spec [symmetric]
             split: entry.splits)
  then show ?thesis using ch suf by (simp add: entry_summary_def)
qed

lemma summaries_of_entries:
  assumes dn: "dn = CHR ''/'' # rest"
    and dist: "distinct (map fst (files s))"
    and simple: "\<forall>f \<in> set (readdir s (DATA_DIR dn)).
                   suffix ''.json'' f \<longrightarrow> remove_first ''.json'' f @ ''.json'' = f"
  shows "set ys \<subseteq> set (files s) \<Longrightarrow>
         List.map_filter (client_summary dn s)
           (filter (suffix ''.json'') (List.map_filter (child_name (DATA_DIR dn)) (map fst ys)))
         = List.map_filter (entry_summary dn) ys"
proof (induction ys)
  case Nil
  then show ?case by simp
next
  case (Cons pe ys)
  obtain p e where pe: "pe = (p, e)" by (cases pe)
  from Cons.prems pe have mem: "(p, e) \<in> set (files s)" and sub: "set ys \<subseteq> set (files s)"
    by simp_all
  note IH = Cons.IH [OF sub]
  show ?case
  proof (cases "child_name (DATA_DIR dn) p")
    case None
    with IH pe show ?thesis by (simp add: entry_summary_def)
  next
    case (Some f)
    show ?thesis
    proof (cases "suffix ''.json'' f")
      case False
      with Some IH pe show ?thesis by (simp add: entry_summary_def)
    next
      case True
      have "p \<in> set (map fst (files s))" using mem by force
      then have "f \<in> set (readdir s (DATA_DIR dn))"
        using Some by (force simp: readdir_def map_filter_def)
      with simple True have "remove_first ''.json'' f @ ''.json'' = f" by blast
      from client_summary_entry [OF dn dist mem Some True this]
      have "client_summary dn s f = entry_summary dn (p, e)" .
      with Some True IH pe show ?thesis by (simp split: option.splits)
    qed
  qed
qed

lemma demo_readdir:
  "readdir demo_store (DATA_DIR ''/app'') = [''acme123.json'', ''broken.json'', ''two.json'']"
  by (simp add: readdir_def app_data_dir demo_store_def child_name_def)

lemma demo_entries:
  "List.map_filter (entry_summary ''/app'') (files demo_store)
   = [JObj [(''clientId'', JStr ''acme123''), (''clientName'', JStr ''Acme'')]]"
  by (simp add: entry_summary_def app_data_dir demo_store_def child_name_def suffix_to_prefix
        spec_summary_def acme_doc_def)

lemma entry_summary_iff:
  "entry_summary dn (p, e) = Some j \<longleftrightarrow>
     (\<exists>d f i n. e = Parsed d \<and> child_name (DATA_DIR dn) p = Some f \<and> suffix ''.json'' f
        \<and> jprop d ''clientId'' = Some i \<and> jprop d ''clientName'' = Some n
        \<and> truthy i \<and> truthy n \<and> j = JObj [(''clientId'', i), (''clientName'', n)])"
proof (cases e)
  case Unreadable
  then show ?thesis by (simp add: entry_summary_def split: option.splits)
next
  case (Parsed d)
  have "spec_summary d = Some j \<longleftrightarrow>
        (\<exists>i n. jprop d ''clientId'' = Some i \<and> jprop d ''clientName'' = Some n
           \<and> truthy i \<and> truthy n \<and> j = JObj [(''clientId'', i), (''clientName'', n)])"
    by (cases d) (auto simp: spec_summary_def split: option.splits)
  with Parsed show ?thesis by (auto simp: entry_summary_def split: option.splits)
qed

lemma listed_summaries:
  "j \<in> set (List.map_filter (entry_summary dn) fs) \<longleftrightarrow>
     (\<exists>p d f i n. (p, Parsed d) \<in> set fs \<and> child_name (DATA_DIR dn) p = Some f
        \<and> suffix ''.json'' f
        \<and> jprop d ''clientId'' = Some i \<and> jprop d ''clientName'' = Some n
        \<and> truthy i \<and> truthy n \<and> j = JObj [(''clientId'', i), (''clientName'', n)])"
proof -
  have "j \<in> set (List.map_filter (entry_summary dn) fs)
        \<longleftrightarrow> (\<exists>p e. (p, e) \<in> set fs \<and> entry_summary dn (p, e) = Some j)"
    by (force simp: List.map_filter_def)
  also have "\<dots> \<longleftrightarrow> (\<exists>p d f i n. (p, Parsed d) \<in> set fs \<and> child_name (DATA_DIR dn) p = Some f
        \<and> suffix ''.json'' f
        \<and> jprop d ''clientId'' = Some i \<and> jprop d ''clientName'' = Some n
        \<and> truthy i \<and> truthy n \<and> j = JObj [(''clientId'', i), (''clientName'', n)])"
    unfolding entry_summary_iff by blast
  finally show ?thesis .
qed

text \<open>
  Claim C9, as amended. On a disk with one entry per path whose directory can be listed,
  and where \<^verbatim>\<open>.json\<close> occurs in the name of each listed \<^verbatim>\<open>.json\<close> file only as
  its ending, \<open>listClients\<close> answers 200 with an array that holds, in directory order,
  the summaries of the entries of the disk. A value is in that array exactly when some
  \<^verbatim>\<open>.json\<close> file directly inside the data directory parses to a document with a
  \<^verbatim>\<open>clientId\<close> and a \<^verbatim>\<open>clientName\<close> that are both truthy, and the value is the
  object of these two fields and nothing else. So files that do not parse, and files
  without these fields or with an empty or otherwise falsy value in one of them, are
  skipped.
\<close>

theorem listClients_spec:
  "dn = CHR ''/'' # rest \<and> \<not> readdir_fails s \<and> distinct (map fst (files s))
   \<and> (\<forall>f \<in> set (readdir s (DATA_DIR dn)).
         suffix ''.json'' f \<longrightarrow> remove_first ''.json'' f @ ''.json'' = f)
   \<longrightarrow> (\<exists>out. listClients dn s = Reply 200 (JArr out)
          \<and> out = List.map_filter (entry_summary dn) (files s)
          \<and> (\<forall>j. j \<in> set out \<longleftrightarrow>
                (\<exists>p d f i n. (p, Parsed d) \<in> set (files s)
                   \<and> child_name (DATA_DIR dn) p = Some f \<and> suffix ''.json'' f
                   \<and> jprop d ''clientId'' = Some i \<and> jprop d ''clientName'' = Some n
                   \<and> truthy i \<and> truthy n
                   \<and> j = JObj [(''clientId'', i), (''clientName'', n)])))"
proof
  assume a: "dn = CHR ''/'' # rest \<and> \<not> readdir_fails s \<and> distinct (map fst (files s))
   \<and> (\<forall>f \<in> set (readdir s (DATA_DIR dn)).
         suffix ''.json'' f \<longrightarrow> remove_first ''.json'' f @ ''.json'' = f)"
  then have "List.map_filter (client_summary dn s)
           (filter (suffix ''.json'') (List.map_filter (child_name (DATA_DIR dn)) (map fst (files s))))
         = List.map_filter (entry_summary dn) (files s)"
    by (intro summaries_of_entries [where rest = rest]) simp_all
  with a have "listClients dn s = Reply 200 (JArr (List.map_filter (entry_summary dn) (files s)))"
    by (simp add: listClients_def readdir_def)
  then show "\<exists>out. listClients dn s = Reply 200 (JArr out)
          \<and> out = List.map_filter (entry_summary dn) (files s)
          \<and> (\<forall>j. j \<in> set out \<longleftrightarrow>
                (\<exists>p d f i n. (p, Parsed d) \<in> set (files s)
                   \<and> child_name (DATA_DIR dn) p = Some f \<and> suffix ''.json'' f
                   \<and> jprop d ''clientId'' = Some i \<and> jprop d ''clientName'' = Some n
                   \<and> truthy i \<and> truthy n
                   \<and> j = JObj [(''clientId'', i), (''clientName'', n)]))"
    using listed_summaries [of _ dn "files s"] by blast
qed

theorem listClients_spec_witness:
  "''/app'' = CHR ''/'' # ''app'' \<and> \<not> readdir_fails demo_store
   \<and> distinct (map fst (files demo_store))
   \<and> readdir demo_store (DATA_DIR ''/app'') = [''acme123.json'', ''broken.json'', ''two.json'']
   \<and> listClients ''/app'' demo_store
       = Reply 200 (JArr [JObj [(''clientId'', JStr ''acme123''), (''clientName'', JStr ''Acme'')]])"
proof -
  have h: "''/app'' = CHR ''/'' # ''app'' \<and> \<not> readdir_fails demo_store
           \<and> distinct (map fst (files demo_store))"
    by (simp add: demo_store_def)
  have n: "\<forall>f \<in> set (readdir demo_store (DATA_DIR ''/app'')).
         suffix ''.json'' f \<longrightarrow> remove_first ''.json'' f @ ''.json'' = f"
    by (simp add: demo_readdir)
  from h n listClients_spec [where dn = "''/app''" and rest = "''app''" and s = demo_store]
  have "listClients ''/app'' demo_store
          = Reply 200 (JArr (List.map_filter (entry_summary ''/app'') (files demo_store)))"
    by blast
  with h demo_readdir show ?thesis
    by (simp only: demo_entries) blast
qed

text \<open>
  The claim as stated does not hold: a document that parses and has both fields, with
  the empty string as \<^verbatim>\<open>clientName\<close>, gets no summary.
\<close>

theorem blank_name_counterexample:
  "map_of (files blank_name_store) ''/app/data/abc.json''
     = Some (Parsed (JObj [(''clientId'', JStr ''abc''), (''clientName'', JStr [])]))
   \<and> listClients ''/app'' blank_name_store = Reply 200 (JArr [])"
  by (simp add: listClients_def readdir_def app_data_dir blank_name_store_def child_name_def
        suffix_to_prefix client_summary_def getClientData_def app_path pathExists_def readJson_def
        summary_of_def)

subsection \<open>Failures leave the disk untouched\<close>

text \<open>
  What the failing branches of the mutating handlers do, in general: \<open>createClient\<close> on
  an existing file, \<open>addReview\<close> and \<open>deleteReview\<close> on an identifier without a
  document, and \<open>deleteReview\<close> of a text that is not in the review list answer with a
  failure status and return the disk exactly as it was; \<open>updateClient\<close> on an identifier
  without a document returns the disk exactly as it was, too, but throws instead of
  answering.
\<close>

lemma failures_leave_store:
  "(pathExists s (getClientDataPath dn c) \<longrightarrow>
      createClient dn s c seed details = (Reply 409 (message ''Client ID already exists.''), s))
   \<and> (\<not> truthy (getClientData dn s c) \<longrightarrow>
        updateClient dn s c body = (Thrown, s)
        \<and> addReview dn s c review = (Reply 404 (message ''Client not found.''), s)
        \<and> failure (fst (deleteReview dn s c review)) \<and> snd (deleteReview dn s c review) = s)
   \<and> (truthy (getClientData dn s c) \<and> reviews_or_empty (getClientData dn s c) = JArr xs
        \<and> JStr review \<notin> set xs \<longrightarrow>
        failure (fst (deleteReview dn s c review)) \<and> snd (deleteReview dn s c review) = s)"
proof (intro conjI impI)
  assume "pathExists s (getClientDataPath dn c)"
  then show "createClient dn s c seed details = (Reply 409 (message ''Client ID already exists.''), s)"
    by (simp add: createClient_def)
next
  assume "\<not> truthy (getClientData dn s c)"
  then show "updateClient dn s c body = (Thrown, s)"
    by (simp add: updateClient_def status_json_def)
next
  assume "\<not> truthy (getClientData dn s c)"
  then show "addReview dn s c review = (Reply 404 (message ''Client not found.''), s)"
    by (simp add: addReview_def)
next
  assume "\<not> truthy (getClientData dn s c)"
  then show "failure (fst (deleteReview dn s c review))"
    by (simp add: deleteReview_def failure_def)
next
  assume "\<not> truthy (getClientData dn s c)"
  then show "snd (deleteReview dn s c review) = s"
    by (simp add: deleteReview_def)
next
  assume "truthy (getClientData dn s c) \<and> reviews_or_empty (getClientData dn s c) = JArr xs
        \<and> JStr review \<notin> set xs"
  then show "failure (fst (deleteReview dn s c review))"
    by (simp add: deleteReview_def failure_def index_of_None [THEN iffD2])
next
  assume "truthy (getClientData dn s c) \<and> reviews_or_empty (getClientData dn s c) = JArr xs
        \<and> JStr review \<notin> set xs"
  then show "snd (deleteReview dn s c review) = s"
    by (simp add: deleteReview_def index_of_None [THEN iffD2])
qed

text \<open>
  Claim C10. Each mutating handler that fails with Conflict or NotFound is claimed to
  return its failure before any write, the disk staying exactly as it was. In the example
  installation this is so for \<open>createClient\<close> on the existing \<^verbatim>\<open>acme123\<close>, for
  \<open>addReview\<close> and \<open>deleteReview\<close> on the missing \<^verbatim>\<open>ghost\<close>, and for
  \<open>deleteReview\<close> of a text that \<^verbatim>\<open>acme123\<close> does not have. \<open>updateClient\<close> on the
  missing \<^verbatim>\<open>ghost\<close> leaves the disk as it was, but returns no failure: asking for the
  status 4404 it throws, and no reply is sent.
\<close>

theorem missing_update_returns_no_failure:
  "createClient ''/app'' demo_store ''acme123'' None []
       = (Reply 409 (message ''Client ID already exists.''), demo_store)
   \<and> addReview ''/app'' demo_store ''ghost'' ''Great service!!!''
       = (Reply 404 (message ''Client not found.''), demo_store)
   \<and> deleteReview ''/app'' demo_store ''ghost'' ''Great service!!!''
       = (Reply 404 (message ''Client not found.''), demo_store)
   \<and> deleteReview ''/app'' demo_store ''acme123'' ''C''
       = (Reply 404 (message ''Review not found.''), demo_store)
   \<and> updateClient ''/app'' demo_store ''ghost'' update_body = (Thrown, demo_store)
   \<and> \<not> failure (fst (updateClient ''/app'' demo_store ''ghost'' update_body))"
proof -
  have e: "pathExists demo_store (getClientDataPath ''/app'' ''acme123'')"
    by (simp add: pathExists_def demo_acme_file)
  have g: "\<not> truthy (getClientData ''/app'' demo_store ''ghost'')"
    by (simp add: demo_ghost)
  have c: "createClient ''/app'' demo_store ''acme123'' None []
       = (Reply 409 (message ''Client ID already exists.''), demo_store)"
    using e by (simp add: createClient_def)
  have a: "addReview ''/app'' demo_store ''ghost'' ''Great service!!!''
       = (Reply 404 (message ''Client not found.''), demo_store)"
    using g by (simp add: addReview_def)
  have d1: "deleteReview ''/app'' demo_store ''ghost'' ''Great service!!!''
       = (Reply 404 (message ''Client not found.''), demo_store)"
    using g by (simp add: deleteReview_def)
  have d2: "deleteReview ''/app'' demo_store ''acme123'' ''C''
       = (Reply 404 (message ''Review not found.''), demo_store)"
    by (simp add: deleteReview_def demo_acme) (simp add: acme_doc_def reviews_or_empty_def)
  have u: "updateClient ''/app'' demo_store ''ghost'' update_body = (Thrown, demo_store)"
    using g by (simp add: updateClient_def status_json_def)
  from c a d1 d2 u show ?thesis by (simp add: failure_def)
qed

end
